theory Spec2Isabelle
  imports
    Complex_Main
    "HOL-Library.Char_ord"
    "HOL-Library.List_Lexorder"
    "HOL-Library.Product_Lexorder"
begin

section \<open>funnel-guard: the analytical core\<close>

text \<open>
  A shallow embedding of the three engines of funnel-guard
  (\<^verbatim>\<open>FunnelAnalyzer.ts\<close>, \<^verbatim>\<open>BreakDetector.ts\<close>, \<^verbatim>\<open>CauseAnalyzer.ts\<close>) together with the
  entities and the time utilities they use.

  Conventions of the embedding:
  \<^item> a JavaScript \<^verbatim>\<open>number\<close> that holds a measurement (rate, score, weight, threshold) is a
    \<^typ>\<open>real\<close>: arithmetic is exact and the rounding of IEEE doubles is not modelled; event
    counts are \<^typ>\<open>int\<close>;
  \<^item> a number that is not a real is an error value of the model: a division whose divisor is
    0, which JavaScript evaluates to \<^verbatim>\<open>Infinity\<close> or \<^verbatim>\<open>NaN\<close>, is \<open>Inl DivisionByZero\<close>, and
    arithmetic on \<^verbatim>\<open>NaN\<close> is \<open>Inl NotANumber\<close>; a comparison with \<^verbatim>\<open>NaN\<close> is false, as in
    JavaScript;
  \<^item> what the process environment decides is an explicit input, the record \<open>platform\<close>: the
    day difference that the library dayjs computes in the time zone of the process, and the
    collation of \<^verbatim>\<open>String.prototype.localeCompare\<close> in its locale; nothing is assumed about
    either unless a theorem says so;
  \<^item> dates are the strings the code passes around;
  \<^item> the optional \<^verbatim>\<open>id\<close> of a break and of a diagnosis, which the core neither sets nor reads,
    is left out;
  \<^item> \<^verbatim>\<open>Array.prototype.sort\<close> is a stable sort driven by the comparator it is given;
  \<^item> a \<^verbatim>\<open>Map\<close> that is iterated is an association list in insertion order;
  \<^item> the wall clock that \<^verbatim>\<open>now()\<close> reads is an explicit input \<open>clock\<close>: \<open>clock k\<close> is what
    the \<open>k\<close>-th call of \<^verbatim>\<open>now()\<close> in a run returns (\<^verbatim>\<open>dayjs().toISOString()\<close>);
  \<^item> the number formatter of the runtime is a parameter \<open>toFixed\<close>: \<open>toFixed x d\<close> is
    \<^verbatim>\<open>x.toFixed(d)\<close>;
  \<^item> a JavaScript \<^verbatim>\<open>TypeError\<close> is the left injection of a sum type.
\<close>

subsection \<open>Entities\<close>

datatype FunnelStage = IMPRESSION | CLICK | LANDING | LEAD | PURCHASE

text \<open>The string value of each enum member.\<close>

fun stageName :: "FunnelStage \<Rightarrow> string" where
  "stageName IMPRESSION = ''impression''"
| "stageName CLICK = ''click''"
| "stageName LANDING = ''landing''"
| "stageName LEAD = ''lead''"
| "stageName PURCHASE = ''purchase''"

definition STAGE_ORDER :: "FunnelStage list" where
  "STAGE_ORDER = [IMPRESSION, CLICK, LANDING, LEAD, PURCHASE]"

record Event =
  ev_id :: "string option"
  ev_date :: string
  ev_funnelId :: string
  ev_stage :: FunnelStage
  ev_count :: int
  ev_source :: "string option"

record FunnelSnapshot =
  snap_date :: string
  snap_funnelId :: string
  stageCounts :: "FunnelStage \<Rightarrow> int"

record RateEntry =
  re_fromStage :: FunnelStage
  re_toStage :: FunnelStage
  rate :: real
  fromCount :: int
  toCount :: int

record ConversionRates =
  cr_date :: string
  cr_funnelId :: string
  rates :: "RateEntry list"

datatype ChangeCategory = AD | SITE | EXTERNAL | TRACKING | PRICING | AUDIENCE

fun categoryName :: "ChangeCategory \<Rightarrow> string" where
  "categoryName AD = ''ad''"
| "categoryName SITE = ''site''"
| "categoryName EXTERNAL = ''external''"
| "categoryName TRACKING = ''tracking''"
| "categoryName PRICING = ''pricing''"
| "categoryName AUDIENCE = ''audience''"

record Change =
  ch_id :: "string option"
  ch_date :: string
  ch_funnelId :: string
  category :: ChangeCategory
  description :: string
  ch_severity :: real
  affectedStages :: "string list option"

datatype BreakSeverity = WARNING | SIGNIFICANT | CRITICAL

record Break =
  funnelId :: string
  fromStage :: FunnelStage
  toStage :: FunnelStage
  detectedDate :: string
  baselineRate :: real
  currentRate :: real
  absoluteDrop :: real
  relativeDrop :: real
  zScore :: real
  severity :: BreakSeverity

record ScoreBreakdown =
  temporalScore :: real
  categoryRelevanceScore :: real
  severityScore :: real
  stageMatchBonus :: real

record CauseCandidate =
  changeId :: string
  changeDescription :: string
  changeCategory :: ChangeCategory
  changeDate :: string
  changeSeverity :: real
  confidence :: real
  scoreBreakdown :: ScoreBreakdown

datatype DiagnosisStatus = IDENTIFIED | UNCERTAIN | UNKNOWN

record Diagnosis =
  generatedAt :: string
  brk :: Break
  causes :: "CauseCandidate list"
  diagnosisStatus :: DiagnosisStatus
  summary :: string

text \<open>
  The ways a run could leave its types: \<^verbatim>\<open>reduce\<close> without an initial value throws a
  TypeError on an empty array; reading element 0 of an empty array gives \<^verbatim>\<open>undefined\<close>; a
  division by 0 and arithmetic on \<^verbatim>\<open>NaN\<close> give a number that is not a real.
\<close>

datatype error = ReduceOfEmptyArray | UndefinedElement | DivisionByZero | NotANumber

text \<open>Sequencing: the first error ends the computation.\<close>

definition bindE :: "error + 'a \<Rightarrow> ('a \<Rightarrow> error + 'b) \<Rightarrow> error + 'b" where
  "bindE m f = (case m of Inl e \<Rightarrow> Inl e | Inr x \<Rightarrow> f x)"

text \<open>\<^verbatim>\<open>xs.map(f)\<close>, or a loop that pushes one result per element, left to right.\<close>

fun mapE :: "('a \<Rightarrow> error + 'b) \<Rightarrow> 'a list \<Rightarrow> error + 'b list" where
  "mapE f [] = Inr []"
| "mapE f (x # xs) = bindE (f x) (\<lambda>y. bindE (mapE f xs) (\<lambda>ys. Inr (y # ys)))"

text \<open>The operator \<^verbatim>\<open>/\<close> and \<^verbatim>\<open>Math.sqrt\<close>.\<close>

definition checkedDivide :: "real \<Rightarrow> real \<Rightarrow> error + real" where
  "checkedDivide a b = (if b = 0 then Inl DivisionByZero else Inr (a / b))"

definition checkedSqrt :: "real \<Rightarrow> error + real" where
  "checkedSqrt x = (if x < 0 then Inl NotANumber else Inr (sqrt x))"

subsection \<open>Platform: day difference, string comparison, sorting, sets, splitting\<close>

text \<open>
  \<open>dayjsDiff pf a b\<close> is the number \<^verbatim>\<open>dayjs(a).diff(dayjs(b), "day")\<close> as the process computes
  it: the library parses both strings in the local time zone and truncates the quotient of the
  elapsed time by the length of a day, so the value is a whole number that depends on the time
  zone; \<open>None\<close> is \<^verbatim>\<open>NaN\<close>, the value for a string that is no date. \<open>localeCompare pf a b\<close> is
  \<^verbatim>\<open>a.localeCompare(b)\<close> in the default locale of the process.
\<close>

record platform =
  dayjsDiff :: "string \<Rightarrow> string \<Rightarrow> int option"
  localeCompare :: "string \<Rightarrow> string \<Rightarrow> real"

text \<open>
  \<^verbatim>\<open>xs.sort(cmp)\<close>: stable; an element goes before the first element that the comparator
  does not put before it.
\<close>

fun insertBy :: "('a \<Rightarrow> 'a \<Rightarrow> real) \<Rightarrow> 'a \<Rightarrow> 'a list \<Rightarrow> 'a list" where
  "insertBy cmp x [] = [x]"
| "insertBy cmp x (y # ys) = (if cmp x y \<le> 0 then x # y # ys else y # insertBy cmp x ys)"

definition sortBy :: "('a \<Rightarrow> 'a \<Rightarrow> real) \<Rightarrow> 'a list \<Rightarrow> 'a list" where
  "sortBy cmp xs = foldr (insertBy cmp) xs []"

text \<open>\<^verbatim>\<open>[...new Set(xs)]\<close>: the distinct elements in order of first occurrence.\<close>

definition uniqueInOrder :: "'a list \<Rightarrow> 'a list" where
  "uniqueInOrder xs = foldl (\<lambda>seen x. if x \<in> set seen then seen else seen @ [x]) [] xs"

text \<open>\<^verbatim>\<open>s.split(sep)\<close> for a one-character separator.\<close>

fun splitOn :: "char \<Rightarrow> string \<Rightarrow> string list" where
  "splitOn sep [] = [[]]"
| "splitOn sep (c # cs) =
     (if c = sep then [] # splitOn sep cs
      else (case splitOn sep cs of
              p # ps \<Rightarrow> (c # p) # ps
            | [] \<Rightarrow> [[c]]))"

subsection \<open>Time utilities (\<^verbatim>\<open>utils/time.ts\<close>)\<close>

text \<open>\<^verbatim>\<open>daysDiff(from, to) = dayjs(to).diff(dayjs(from), "day")\<close>\<close>

definition daysDiff :: "platform \<Rightarrow> string \<Rightarrow> string \<Rightarrow> int option" where
  "daysDiff pf from to = dayjsDiff pf to from"

subsection \<open>Funnel analyzer (\<^verbatim>\<open>FunnelAnalyzer.ts\<close>)\<close>

text \<open>
  The body of the first loop of \<^verbatim>\<open>buildSnapshots\<close> on the insertion-ordered map
  \<^verbatim>\<open>grouped\<close>: create the entry of the key when it is missing, then add the count to what the
  stage holds (0 when the stage is new).
\<close>

fun groupedAdd ::
  "string \<Rightarrow> FunnelStage \<Rightarrow> int \<Rightarrow> (string \<times> (FunnelStage \<rightharpoonup> int)) list
     \<Rightarrow> (string \<times> (FunnelStage \<rightharpoonup> int)) list" where
  "groupedAdd key st n [] = [(key, [st \<mapsto> 0 + n])]"
| "groupedAdd key st n ((k, m) # g) =
     (if k = key
      then (k, m(st \<mapsto> (case m st of None \<Rightarrow> 0 | Some existing \<Rightarrow> existing) + n)) # g
      else (k, m) # groupedAdd key st n g)"

definition snapshotKey :: "Event \<Rightarrow> string" where
  "snapshotKey event = ev_funnelId event @ ''|'' @ ev_date event"

definition grouped :: "Event list \<Rightarrow> (string \<times> (FunnelStage \<rightharpoonup> int)) list" where
  "grouped events =
     foldl (\<lambda>g event. groupedAdd (snapshotKey event) (ev_stage event) (ev_count event) g) [] events"

text \<open>
  For the proofs: the count that the grouped map holds at a key and a stage, 0 when it holds
  none.
\<close>

definition countIn :: "(string \<times> (FunnelStage \<rightharpoonup> int)) list \<Rightarrow> string \<Rightarrow> FunnelStage \<Rightarrow> int" where
  "countIn g k st = (case map_of g k of None \<Rightarrow> 0 | Some m \<Rightarrow> (case m st of None \<Rightarrow> 0 | Some c \<Rightarrow> c))"

text \<open>
  \<^verbatim>\<open>const [funnelId, date] = key.split("|")\<close>: the first two pieces of the key. Every key has
  a separator, so there are always two; with one piece only the date would be
  \<^verbatim>\<open>undefined\<close>, written here as the empty string.
\<close>

definition snapshotOf :: "string \<times> (FunnelStage \<rightharpoonup> int) \<Rightarrow> FunnelSnapshot" where
  "snapshotOf entry =
     (case entry of (key, counts) \<Rightarrow>
        (case splitOn (CHR ''|'') key of
           f # d # _ \<Rightarrow>
             \<lparr>snap_date = d, snap_funnelId = f,
              stageCounts = (\<lambda>stage. case counts stage of None \<Rightarrow> 0 | Some c \<Rightarrow> c)\<rparr>
         | [f] \<Rightarrow>
             \<lparr>snap_date = [], snap_funnelId = f,
              stageCounts = (\<lambda>stage. case counts stage of None \<Rightarrow> 0 | Some c \<Rightarrow> c)\<rparr>
         | [] \<Rightarrow>
             \<lparr>snap_date = [], snap_funnelId = [],
              stageCounts = (\<lambda>stage. case counts stage of None \<Rightarrow> 0 | Some c \<Rightarrow> c)\<rparr>))"

definition compareSnapshots :: "platform \<Rightarrow> FunnelSnapshot \<Rightarrow> FunnelSnapshot \<Rightarrow> real" where
  "compareSnapshots pf a b =
     (if snap_funnelId a \<noteq> snap_funnelId b
      then localeCompare pf (snap_funnelId a) (snap_funnelId b)
      else localeCompare pf (snap_date a) (snap_date b))"

definition buildSnapshots :: "platform \<Rightarrow> Event list \<Rightarrow> FunnelSnapshot list" where
  "buildSnapshots pf events = sortBy (compareSnapshots pf) (map snapshotOf (grouped events))"

text \<open>The loop \<^verbatim>\<open>for (i = 0; i < STAGE_ORDER.length - 1; i++)\<close> visits these pairs.\<close>

definition stagePairs :: "(FunnelStage \<times> FunnelStage) list" where
  "stagePairs =
     map (\<lambda>i. (STAGE_ORDER ! i, STAGE_ORDER ! (i + 1))) [0 ..< length STAGE_ORDER - 1]"

text \<open>The body of the inner loop of \<^verbatim>\<open>calculateConversionRates\<close>.\<close>

definition rateEntryOf :: "FunnelSnapshot \<Rightarrow> FunnelStage \<times> FunnelStage \<Rightarrow> error + RateEntry" where
  "rateEntryOf snapshot pair =
     (case pair of (from, to) \<Rightarrow>
        (let fromCount = stageCounts snapshot from;
             toCount = stageCounts snapshot to
         in bindE (if fromCount > 0
                   then checkedDivide (real_of_int toCount) (real_of_int fromCount)
                   else Inr 0)
              (\<lambda>rate. Inr \<lparr>re_fromStage = from, re_toStage = to, rate = rate,
                             fromCount = fromCount, toCount = toCount\<rparr>)))"

definition calculateConversionRates :: "FunnelSnapshot list \<Rightarrow> error + ConversionRates list" where
  "calculateConversionRates snapshots =
     mapE (\<lambda>snapshot.
             bindE (mapE (rateEntryOf snapshot) stagePairs)
               (\<lambda>rates. Inr \<lparr>cr_date = snap_date snapshot, cr_funnelId = snap_funnelId snapshot,
                               rates = rates\<rparr>))
          snapshots"

subsection \<open>Break detector (\<^verbatim>\<open>BreakDetector.ts\<close>)\<close>

record BreakDetectorConfig =
  baselineWindowDays :: real
  currentWindowDays :: real
  minRelativeDrop :: real
  minZScore :: real
  minBaselineDataPoints :: real

definition DEFAULT_BREAK_DETECTOR_CONFIG :: BreakDetectorConfig where
  "DEFAULT_BREAK_DETECTOR_CONFIG =
     \<lparr>baselineWindowDays = 14, currentWindowDays = 3, minRelativeDrop = 0.15,
      minZScore = 1.5, minBaselineDataPoints = 7\<rparr>"

text \<open>\<^verbatim>\<open>Partial<BreakDetectorConfig>\<close>: each key present or absent.\<close>

record PartialBreakDetectorConfig =
  opt_baselineWindowDays :: "real option"
  opt_currentWindowDays :: "real option"
  opt_minRelativeDrop :: "real option"
  opt_minZScore :: "real option"
  opt_minBaselineDataPoints :: "real option"

text \<open>\<^verbatim>\<open>{ ...DEFAULT_BREAK_DETECTOR_CONFIG, ...config }\<close>\<close>

definition mergeBreakDetectorConfig :: "PartialBreakDetectorConfig \<Rightarrow> BreakDetectorConfig" where
  "mergeBreakDetectorConfig config =
     \<lparr>baselineWindowDays =
        (case opt_baselineWindowDays config of
           None \<Rightarrow> baselineWindowDays DEFAULT_BREAK_DETECTOR_CONFIG | Some v \<Rightarrow> v),
      currentWindowDays =
        (case opt_currentWindowDays config of
           None \<Rightarrow> currentWindowDays DEFAULT_BREAK_DETECTOR_CONFIG | Some v \<Rightarrow> v),
      minRelativeDrop =
        (case opt_minRelativeDrop config of
           None \<Rightarrow> minRelativeDrop DEFAULT_BREAK_DETECTOR_CONFIG | Some v \<Rightarrow> v),
      minZScore =
        (case opt_minZScore config of
           None \<Rightarrow> minZScore DEFAULT_BREAK_DETECTOR_CONFIG | Some v \<Rightarrow> v),
      minBaselineDataPoints =
        (case opt_minBaselineDataPoints config of
           None \<Rightarrow> minBaselineDataPoints DEFAULT_BREAK_DETECTOR_CONFIG | Some v \<Rightarrow> v)\<rparr>"

record RateDataPoint =
  dp_date :: string
  dp_rate :: real

definition mean :: "real list \<Rightarrow> error + real" where
  "mean values =
     (if length values = 0 then Inr 0
      else checkedDivide (foldl (\<lambda>sum v. sum + v) 0 values) (real (length values)))"

definition stddev :: "real list \<Rightarrow> error + real" where
  "stddev values =
     (if length values < 2 then Inr 0
      else bindE (mean values)
             (\<lambda>avg. let squaredDiffs = map (\<lambda>v. (v - avg) ^ 2) values
                    in bindE (checkedDivide (foldl (\<lambda>sum v. sum + v) 0 squaredDiffs)
                                (real (length values) - 1))
                         checkedSqrt))"

definition classifySeverity :: "real \<Rightarrow> real \<Rightarrow> BreakSeverity" where
  "classifySeverity relDrop z =
     (if relDrop > 0.40 \<or> \<bar>z\<bar> > 3.0 then CRITICAL
      else if relDrop > 0.20 \<or> \<bar>z\<bar> > 2.0 then SIGNIFICANT
      else WARNING)"

definition extractTimeSeries ::
  "platform \<Rightarrow> ConversionRates list \<Rightarrow> FunnelStage \<Rightarrow> FunnelStage \<Rightarrow> RateDataPoint list" where
  "extractTimeSeries pf conversionRates from to =
     sortBy (\<lambda>a b. localeCompare pf (dp_date a) (dp_date b))
       (map (\<lambda>cr.
               \<lparr>dp_date = cr_date cr,
                dp_rate =
                  (case List.find (\<lambda>r. re_fromStage r = from \<and> re_toStage r = to) (rates cr) of
                     None \<Rightarrow> 0
                   | Some rateEntry \<Rightarrow> rate rateEntry)\<rparr>)
            conversionRates)"

text \<open>
  The body of the loop of \<^verbatim>\<open>detectBreaksInSeries\<close> for one detection date, in two parts.
  \<open>windowStats\<close> is the part up to the last \<^verbatim>\<open>continue\<close>: it builds the two windows and
  returns the baseline mean, the baseline standard deviation and the current mean, or
  \<open>None\<close> when one of the three guards skips the date.
\<close>

definition currentPoints ::
  "platform \<Rightarrow> BreakDetectorConfig \<Rightarrow> RateDataPoint list \<Rightarrow> string \<Rightarrow> RateDataPoint list" where
  "currentPoints pf config timeSeries detectionDate =
     filter (\<lambda>dp. case daysDiff pf (dp_date dp) detectionDate of
                   None \<Rightarrow> False
                 | Some diff \<Rightarrow> real_of_int diff \<ge> 0 \<and> real_of_int diff < currentWindowDays config)
            timeSeries"

definition baselinePoints ::
  "platform \<Rightarrow> BreakDetectorConfig \<Rightarrow> RateDataPoint list \<Rightarrow> string \<Rightarrow> RateDataPoint list" where
  "baselinePoints pf config timeSeries detectionDate =
     filter (\<lambda>dp. case daysDiff pf (dp_date dp) detectionDate of
                   None \<Rightarrow> False
                 | Some diff \<Rightarrow>
                     real_of_int diff \<ge> currentWindowDays config
                     \<and> real_of_int diff < baselineWindowDays config + currentWindowDays config)
            timeSeries"

definition windowStats ::
  "platform \<Rightarrow> BreakDetectorConfig \<Rightarrow> RateDataPoint list \<Rightarrow> string
     \<Rightarrow> error + (real \<times> real \<times> real) option" where
  "windowStats pf config timeSeries detectionDate =
     (let current = currentPoints pf config timeSeries detectionDate;
          baseline = baselinePoints pf config timeSeries detectionDate
      in if real (length baseline) < minBaselineDataPoints config then Inr None
         else if length current = 0 then Inr None
         else (let baselineRates = map dp_rate baseline;
                   currentRates = map dp_rate current
               in bindE (mean baselineRates) (\<lambda>baselineMean.
                  bindE (stddev baselineRates) (\<lambda>baselineStdDev.
                  bindE (mean currentRates) (\<lambda>currentMean.
                    if baselineMean = 0 then Inr None
                    else Inr (Some (baselineMean, baselineStdDev, currentMean)))))))"

text \<open>
  \<open>flagBreak\<close> is the rest of the body: the two divisions and the test that pushes a break.
\<close>

definition flagBreak ::
  "BreakDetectorConfig \<Rightarrow> string \<Rightarrow> FunnelStage \<Rightarrow> FunnelStage \<Rightarrow> string
     \<Rightarrow> real \<times> real \<times> real \<Rightarrow> error + Break option" where
  "flagBreak config fid from to detectionDate stats =
     (case stats of (baselineMean, baselineStdDev, currentMean) \<Rightarrow>
        (let effectiveStdDev = max baselineStdDev 0.01;
             absDrop = baselineMean - currentMean
         in bindE (checkedDivide absDrop baselineMean) (\<lambda>relDrop.
            bindE (checkedDivide absDrop effectiveStdDev) (\<lambda>z.
              if relDrop \<ge> minRelativeDrop config \<and> \<bar>z\<bar> \<ge> minZScore config
              then Inr (Some \<lparr>funnelId = fid, fromStage = from, toStage = to,
                              detectedDate = detectionDate, baselineRate = baselineMean,
                              currentRate = currentMean, absoluteDrop = absDrop,
                              relativeDrop = relDrop, zScore = z,
                              severity = classifySeverity relDrop z\<rparr>)
              else Inr None))))"

definition detectAt ::
  "platform \<Rightarrow> BreakDetectorConfig \<Rightarrow> RateDataPoint list \<Rightarrow> string \<Rightarrow> FunnelStage \<Rightarrow> FunnelStage
     \<Rightarrow> string \<Rightarrow> error + Break option" where
  "detectAt pf config timeSeries fid from to detectionDate =
     bindE (windowStats pf config timeSeries detectionDate)
       (\<lambda>skipOrStats. case skipOrStats of
            None \<Rightarrow> Inr None
          | Some stats \<Rightarrow> flagBreak config fid from to detectionDate stats)"

definition detectBreaksInSeries ::
  "platform \<Rightarrow> RateDataPoint list \<Rightarrow> string \<Rightarrow> FunnelStage \<Rightarrow> FunnelStage \<Rightarrow> BreakDetectorConfig
     \<Rightarrow> error + Break list" where
  "detectBreaksInSeries pf timeSeries fid from to config =
     bindE (mapE (\<lambda>dp. detectAt pf config timeSeries fid from to (dp_date dp)) timeSeries)
       (\<lambda>pushed. Inr (List.map_filter (\<lambda>p. p) pushed))"

text \<open>The list \<^verbatim>\<open>allBreaks\<close> that the two nested loops of \<^verbatim>\<open>detectBreaks\<close> fill.\<close>

definition allBreaks ::
  "platform \<Rightarrow> ConversionRates list \<Rightarrow> BreakDetectorConfig \<Rightarrow> error + Break list" where
  "allBreaks pf conversionRates cfg =
     bindE (mapE (\<lambda>fid.
              (let funnelRates =
                     sortBy (\<lambda>a b. localeCompare pf (cr_date a) (cr_date b))
                       (filter (\<lambda>cr. cr_funnelId cr = fid) conversionRates)
               in bindE (mapE (\<lambda>pair. case pair of (from, to) \<Rightarrow>
                                 detectBreaksInSeries pf (extractTimeSeries pf funnelRates from to)
                                   fid from to cfg)
                               stagePairs)
                    (\<lambda>perPair. Inr (concat perPair))))
            (uniqueInOrder (map cr_funnelId conversionRates)))
       (\<lambda>perFunnel. Inr (concat perFunnel))"

definition groupKey :: "Break \<Rightarrow> string" where
  "groupKey b = funnelId b @ ''|'' @ stageName (fromStage b) @ ''|'' @ stageName (toStage b)"

text \<open>
  \<^verbatim>\<open>if (!groups.has(key)) groups.set(key, []); groups.get(key)!.push(brk)\<close> on the
  insertion-ordered map.
\<close>

fun groupPush :: "string \<Rightarrow> Break \<Rightarrow> (string \<times> Break list) list \<Rightarrow> (string \<times> Break list) list" where
  "groupPush key b [] = [(key, [b])]"
| "groupPush key b ((k, g) # gs) =
     (if k = key then (k, g @ [b]) # gs else (k, g) # groupPush key b gs)"

definition groups :: "Break list \<Rightarrow> (string \<times> Break list) list" where
  "groups breaks = foldl (\<lambda>gs b. groupPush (groupKey b) b gs) [] breaks"

fun pickPeakBreak :: "Break list \<Rightarrow> error + Break" where
  "pickPeakBreak [] = Inl ReduceOfEmptyArray"
| "pickPeakBreak (first # rest) =
     Inr (foldl (\<lambda>best cur. if \<bar>zScore cur\<bar> > \<bar>zScore best\<bar> then cur else best) first rest)"

text \<open>
  The inner loop over \<^verbatim>\<open>i = 1 .. groupBreaks.length - 1\<close>: \<open>prev\<close> is
  \<^verbatim>\<open>groupBreaks[i - 1]\<close>, the last argument holds \<^verbatim>\<open>groupBreaks[i ..]\<close>; the state is the open
  cluster and the list \<^verbatim>\<open>deduplicated\<close>.
\<close>

fun clusterLoop ::
  "platform \<Rightarrow> Break \<Rightarrow> Break list \<Rightarrow> Break list \<Rightarrow> Break list
     \<Rightarrow> error + (Break list \<times> Break list)" where
  "clusterLoop pf prev cluster deduplicated [] = Inr (cluster, deduplicated)"
| "clusterLoop pf prev cluster deduplicated (cur # rest) =
     (if (case daysDiff pf (detectedDate prev) (detectedDate cur) of
            None \<Rightarrow> False
          | Some gap \<Rightarrow> gap \<le> 1)
      then clusterLoop pf cur (cluster @ [cur]) deduplicated rest
      else (case pickPeakBreak cluster of
              Inl e \<Rightarrow> Inl e
            | Inr peak \<Rightarrow> clusterLoop pf cur [cur] (deduplicated @ [peak]) rest))"

definition compareDetected :: "platform \<Rightarrow> Break \<Rightarrow> Break \<Rightarrow> real" where
  "compareDetected pf a b = localeCompare pf (detectedDate a) (detectedDate b)"

text \<open>The body of the loop over the groups.\<close>

definition dedupGroup :: "platform \<Rightarrow> Break list \<Rightarrow> Break list \<Rightarrow> error + Break list" where
  "dedupGroup pf deduplicated groupBreaks =
     (case sortBy (compareDetected pf) groupBreaks of
        [] \<Rightarrow> Inl UndefinedElement
      | first # rest \<Rightarrow>
          (case clusterLoop pf first [first] deduplicated rest of
             Inl e \<Rightarrow> Inl e
           | Inr (cluster, deduplicated') \<Rightarrow>
               (case pickPeakBreak cluster of
                  Inl e \<Rightarrow> Inl e
                | Inr peak \<Rightarrow> Inr (deduplicated' @ [peak]))))"

fun dedupGroups ::
  "platform \<Rightarrow> Break list \<Rightarrow> (string \<times> Break list) list \<Rightarrow> error + Break list" where
  "dedupGroups pf deduplicated [] = Inr deduplicated"
| "dedupGroups pf deduplicated ((key, groupBreaks) # gs) =
     (case dedupGroup pf deduplicated groupBreaks of
        Inl e \<Rightarrow> Inl e
      | Inr deduplicated' \<Rightarrow> dedupGroups pf deduplicated' gs)"

definition deduplicateConsecutiveBreaks :: "platform \<Rightarrow> Break list \<Rightarrow> error + Break list" where
  "deduplicateConsecutiveBreaks pf breaks =
     (if length breaks = 0 then Inr []
      else (case dedupGroups pf [] (groups breaks) of
              Inl e \<Rightarrow> Inl e
            | Inr deduplicated \<Rightarrow> Inr (sortBy (compareDetected pf) deduplicated)))"

definition detectBreaks ::
  "platform \<Rightarrow> ConversionRates list \<Rightarrow> PartialBreakDetectorConfig \<Rightarrow> error + Break list" where
  "detectBreaks pf conversionRates config =
     (let cfg = mergeBreakDetectorConfig config
      in bindE (allBreaks pf conversionRates cfg) (deduplicateConsecutiveBreaks pf))"

subsection \<open>Cause analyzer (\<^verbatim>\<open>CauseAnalyzer.ts\<close>)\<close>

record CauseAnalyzerConfig =
  maxTemporalDistanceDays :: real
  temporalWeight :: real
  categoryWeight :: real
  severityWeight :: real
  stageMatchWeight :: real
  minConfidenceThreshold :: real

definition DEFAULT_CAUSE_ANALYZER_CONFIG :: CauseAnalyzerConfig where
  "DEFAULT_CAUSE_ANALYZER_CONFIG =
     \<lparr>maxTemporalDistanceDays = 7, temporalWeight = 0.40, categoryWeight = 0.30,
      severityWeight = 0.20, stageMatchWeight = 0.10, minConfidenceThreshold = 0.1\<rparr>"

record PartialCauseAnalyzerConfig =
  opt_maxTemporalDistanceDays :: "real option"
  opt_temporalWeight :: "real option"
  opt_categoryWeight :: "real option"
  opt_severityWeight :: "real option"
  opt_stageMatchWeight :: "real option"
  opt_minConfidenceThreshold :: "real option"

text \<open>\<^verbatim>\<open>{ ...DEFAULT_CAUSE_ANALYZER_CONFIG, ...config }\<close>\<close>

definition mergeCauseAnalyzerConfig :: "PartialCauseAnalyzerConfig \<Rightarrow> CauseAnalyzerConfig" where
  "mergeCauseAnalyzerConfig config =
     \<lparr>maxTemporalDistanceDays =
        (case opt_maxTemporalDistanceDays config of
           None \<Rightarrow> maxTemporalDistanceDays DEFAULT_CAUSE_ANALYZER_CONFIG | Some v \<Rightarrow> v),
      temporalWeight =
        (case opt_temporalWeight config of
           None \<Rightarrow> temporalWeight DEFAULT_CAUSE_ANALYZER_CONFIG | Some v \<Rightarrow> v),
      categoryWeight =
        (case opt_categoryWeight config of
           None \<Rightarrow> categoryWeight DEFAULT_CAUSE_ANALYZER_CONFIG | Some v \<Rightarrow> v),
      severityWeight =
        (case opt_severityWeight config of
           None \<Rightarrow> severityWeight DEFAULT_CAUSE_ANALYZER_CONFIG | Some v \<Rightarrow> v),
      stageMatchWeight =
        (case opt_stageMatchWeight config of
           None \<Rightarrow> stageMatchWeight DEFAULT_CAUSE_ANALYZER_CONFIG | Some v \<Rightarrow> v),
      minConfidenceThreshold =
        (case opt_minConfidenceThreshold config of
           None \<Rightarrow> minConfidenceThreshold DEFAULT_CAUSE_ANALYZER_CONFIG | Some v \<Rightarrow> v)\<rparr>"

fun CATEGORY_STAGE_RELEVANCE :: "ChangeCategory \<Rightarrow> (string \<times> real) list" where
  "CATEGORY_STAGE_RELEVANCE AD =
     [(''impression->click'', 0.95), (''click->landing'', 0.60),
      (''landing->lead'', 0.20), (''lead->purchase'', 0.10)]"
| "CATEGORY_STAGE_RELEVANCE SITE =
     [(''impression->click'', 0.05), (''click->landing'', 0.90),
      (''landing->lead'', 0.85), (''lead->purchase'', 0.70)]"
| "CATEGORY_STAGE_RELEVANCE EXTERNAL =
     [(''impression->click'', 0.50), (''click->landing'', 0.30),
      (''landing->lead'', 0.40), (''lead->purchase'', 0.60)]"
| "CATEGORY_STAGE_RELEVANCE TRACKING =
     [(''impression->click'', 0.80), (''click->landing'', 0.80),
      (''landing->lead'', 0.60), (''lead->purchase'', 0.40)]"
| "CATEGORY_STAGE_RELEVANCE PRICING =
     [(''impression->click'', 0.05), (''click->landing'', 0.10),
      (''landing->lead'', 0.50), (''lead->purchase'', 0.95)]"
| "CATEGORY_STAGE_RELEVANCE AUDIENCE =
     [(''impression->click'', 0.85), (''click->landing'', 0.70),
      (''landing->lead'', 0.50), (''lead->purchase'', 0.30)]"

text \<open>On \<^verbatim>\<open>NaN\<close> both comparisons are false and \<^verbatim>\<open>Math.exp\<close> returns \<^verbatim>\<open>NaN\<close>.\<close>

definition calcTemporalScore :: "platform \<Rightarrow> string \<Rightarrow> string \<Rightarrow> real \<Rightarrow> error + real" where
  "calcTemporalScore pf chDate breakDate maxDays =
     (case daysDiff pf chDate breakDate of
        None \<Rightarrow> Inl NotANumber
      | Some gap \<Rightarrow>
          if real_of_int gap < 0 \<or> real_of_int gap > maxDays then Inr 0
          else Inr (exp (- 0.5 * real_of_int gap)))"

definition calcCategoryRelevance :: "ChangeCategory \<Rightarrow> FunnelStage \<Rightarrow> FunnelStage \<Rightarrow> real" where
  "calcCategoryRelevance cat from to =
     (let key = stageName from @ ''->'' @ stageName to
      in case map_of (CATEGORY_STAGE_RELEVANCE cat) key of None \<Rightarrow> 0.3 | Some v \<Rightarrow> v)"

definition calcSeverityScore :: "real \<Rightarrow> error + real" where
  "calcSeverityScore sev = checkedDivide (min 5 (max 1 sev) - 1) 4"

definition calcStageMatchBonus :: "Change \<Rightarrow> Break \<Rightarrow> real" where
  "calcStageMatchBonus change b =
     (case affectedStages change of
        None \<Rightarrow> 0
      | Some stages \<Rightarrow>
          if length stages = 0 then 0
          else if list_ex (\<lambda>s. s = stageName (fromStage b) \<or> s = stageName (toStage b)) stages
               then 0.2 else 0)"

definition scoreCandidate ::
  "platform \<Rightarrow> Change \<Rightarrow> Break \<Rightarrow> CauseAnalyzerConfig \<Rightarrow> error + CauseCandidate" where
  "scoreCandidate pf change b config =
     bindE (calcTemporalScore pf (ch_date change) (detectedDate b) (maxTemporalDistanceDays config))
       (\<lambda>tScore.
     bindE (calcSeverityScore (ch_severity change))
       (\<lambda>sScore.
          (let cScore = calcCategoryRelevance (category change) (fromStage b) (toStage b);
               bonus = calcStageMatchBonus change b;
               conf = min 1.0 (max 0.0
                        (tScore * temporalWeight config + cScore * categoryWeight config
                         + sScore * severityWeight config + bonus * stageMatchWeight config))
           in Inr \<lparr>changeId = (case ch_id change of None \<Rightarrow> [] | Some i \<Rightarrow> i),
                   changeDescription = description change,
                   changeCategory = category change,
                   changeDate = ch_date change,
                   changeSeverity = ch_severity change,
                   confidence = conf,
                   scoreBreakdown =
                     \<lparr>temporalScore = tScore, categoryRelevanceScore = cScore,
                      severityScore = sScore, stageMatchBonus = bonus\<rparr>\<rparr>)))"

definition determineStatus :: "CauseCandidate list \<Rightarrow> DiagnosisStatus" where
  "determineStatus cs =
     (case cs of
        [] \<Rightarrow> UNKNOWN
      | first # _ \<Rightarrow> if confidence first \<ge> 0.6 then IDENTIFIED else UNCERTAIN)"

fun severityName :: "BreakSeverity \<Rightarrow> string" where
  "severityName WARNING = ''warning''"
| "severityName SIGNIFICANT = ''significant''"
| "severityName CRITICAL = ''critical''"

definition toUpperCase :: "string \<Rightarrow> string" where
  "toUpperCase s =
     map (\<lambda>c. if CHR ''a'' \<le> c \<and> c \<le> CHR ''z'' then char_of (of_char c - (32::nat)) else c) s"

definition dquote :: string where
  "dquote = [CHR 0x22]"

text \<open>
  Below the first \<^verbatim>\<open>return\<close>, \<^verbatim>\<open>causes[0].confidence\<close> throws when the list is empty; the
  caller passes the status it computed from the same list, so that the branch is not taken
  there.
\<close>

definition generateSummary ::
  "(real \<Rightarrow> nat \<Rightarrow> string) \<Rightarrow> Break \<Rightarrow> CauseCandidate list \<Rightarrow> DiagnosisStatus
     \<Rightarrow> error + string" where
  "generateSummary toFixed b cs status =
     (let dropPct = toFixed (relativeDrop b * 100) 1;
          transition = stageName (fromStage b) @ '' -> '' @ stageName (toStage b);
          header = ''['' @ toUpperCase (severityName (severity b)) @ ''] '' @ dropPct
                   @ ''% conversion drop detected in '' @ dquote @ funnelId b @ dquote
                   @ '' at '' @ transition @ '' on '' @ detectedDate b @ ''.''
      in if status = UNKNOWN
         then Inr (header @ '' No candidate causes found within the analysis window.'')
         else (case cs of
                 [] \<Rightarrow> Inl UndefinedElement
               | topCause # _ \<Rightarrow>
                   (let confPct = toFixed (confidence topCause * 100) 0
                    in if status = IDENTIFIED
                       then Inr (header @ '' Most likely cause ('' @ confPct @ ''% confidence): ''
                                 @ dquote @ changeDescription topCause @ dquote @ '' (''
                                 @ categoryName (changeCategory topCause) @ '', ''
                                 @ changeDate topCause @ '').'')
                       else Inr (header @ '' Possible cause ('' @ confPct @ ''% confidence): ''
                                 @ dquote @ changeDescription topCause @ dquote @ '' (''
                                 @ categoryName (changeCategory topCause) @ '', ''
                                 @ changeDate topCause
                                 @ ''). Low confidence -- manual investigation recommended.''))))"

text \<open>The predicate of the first \<^verbatim>\<open>filter\<close> of \<^verbatim>\<open>diagnoseBreak\<close>.\<close>

definition isCandidateChange :: "platform \<Rightarrow> Break \<Rightarrow> CauseAnalyzerConfig \<Rightarrow> Change \<Rightarrow> bool" where
  "isCandidateChange pf b config change =
     (let funnelMatch = (ch_funnelId change = funnelId b \<or> ch_funnelId change = ''*'')
      in if \<not> funnelMatch then False
         else (case daysDiff pf (ch_date change) (detectedDate b) of
                 None \<Rightarrow> False
               | Some gap \<Rightarrow>
                   real_of_int gap \<ge> 0 \<and> real_of_int gap \<le> maxTemporalDistanceDays config))"

text \<open>The list \<^verbatim>\<open>causes\<close> of \<^verbatim>\<open>diagnoseBreak\<close>.\<close>

definition rankCauses ::
  "platform \<Rightarrow> Break \<Rightarrow> Change list \<Rightarrow> CauseAnalyzerConfig \<Rightarrow> error + CauseCandidate list" where
  "rankCauses pf b allChanges config =
     (let candidateChanges = filter (isCandidateChange pf b config) allChanges
      in bindE (mapE (\<lambda>change. scoreCandidate pf change b config) candidateChanges)
           (\<lambda>scored.
              Inr (sortBy (\<lambda>x y. confidence y - confidence x)
                     (filter (\<lambda>c. confidence c \<ge> minConfidenceThreshold config) scored))))"

text \<open>\<open>k\<close> counts the calls of \<^verbatim>\<open>now()\<close> made before this one.\<close>

definition diagnoseBreak ::
  "platform \<Rightarrow> (real \<Rightarrow> nat \<Rightarrow> string) \<Rightarrow> (nat \<Rightarrow> string) \<Rightarrow> nat \<Rightarrow> Break \<Rightarrow> Change list
     \<Rightarrow> CauseAnalyzerConfig \<Rightarrow> error + Diagnosis" where
  "diagnoseBreak pf toFixed clock k b allChanges config =
     bindE (rankCauses pf b allChanges config)
       (\<lambda>cs. let status = determineStatus cs
             in case generateSummary toFixed b cs status of
                  Inl e \<Rightarrow> Inl e
                | Inr text \<Rightarrow>
                    Inr \<lparr>generatedAt = clock k, brk = b, causes = cs,
                         diagnosisStatus = status, summary = text\<rparr>)"

text \<open>\<^verbatim>\<open>breaks.map(...)\<close>, left to right; an exception ends the run.\<close>

fun diagnoseFrom ::
  "platform \<Rightarrow> (real \<Rightarrow> nat \<Rightarrow> string) \<Rightarrow> (nat \<Rightarrow> string) \<Rightarrow> nat \<Rightarrow> Break list \<Rightarrow> Change list
     \<Rightarrow> CauseAnalyzerConfig \<Rightarrow> error + Diagnosis list" where
  "diagnoseFrom pf toFixed clock k [] allChanges cfg = Inr []"
| "diagnoseFrom pf toFixed clock k (b # bs) allChanges cfg =
     (case diagnoseBreak pf toFixed clock k b allChanges cfg of
        Inl e \<Rightarrow> Inl e
      | Inr d \<Rightarrow>
          (case diagnoseFrom pf toFixed clock (Suc k) bs allChanges cfg of
             Inl e \<Rightarrow> Inl e
           | Inr ds \<Rightarrow> Inr (d # ds)))"

definition analyzeCauses ::
  "platform \<Rightarrow> (real \<Rightarrow> nat \<Rightarrow> string) \<Rightarrow> (nat \<Rightarrow> string) \<Rightarrow> Break list \<Rightarrow> Change list
     \<Rightarrow> PartialCauseAnalyzerConfig \<Rightarrow> error + Diagnosis list" where
  "analyzeCauses pf toFixed clock breaks changes config =
     (let cfg = mergeCauseAnalyzerConfig config
      in diagnoseFrom pf toFixed clock 0 breaks changes cfg)"
subsection \<open>Two process environments\<close>

text \<open>
  The library parses a string \<^verbatim>\<open>YYYY-MM-DD\<close> to the start of that calendar day in the time zone
  of the process, \<^verbatim>\<open>new Date(y, m - 1, d)\<close>, and \<^verbatim>\<open>diff\<close> computes
  \<^verbatim>\<open>(this - that - zoneDelta) / MILLISECONDS_A_DAY\<close> with
  \<^verbatim>\<open>zoneDelta = (that.utcOffset() - this.utcOffset()) * MILLISECONDS_A_MINUTE\<close>, truncated
  towards zero (\<^verbatim>\<open>n < 0 ? Math.ceil(n) || 0 : Math.floor(n)\<close>).

  \<open>isoDay\<close> reads a string of the shape \<^verbatim>\<open>YYYY-MM-DD\<close> with a year from 100 on, month 1 to 12
  and day 1 to 31 as the number of days from 1970-01-01 in the proleptic Gregorian calendar (a
  day past the end of the month rolls over as \<^verbatim>\<open>Date\<close> does). The platforms below say what
  the library returns on strings of that shape; on any other string they hold \<open>None\<close>, which
  is what the library returns on a string it cannot parse and is not claimed of the other
  strings it can parse. The first two compare strings by code point, which is what
  \<^verbatim>\<open>localeCompare\<close> gives in an English locale on two dates of that shape and on two words of
  lower-case letters, the strings that the examples compare.
\<close>

definition digitsValue :: "string \<Rightarrow> int" where
  "digitsValue s = foldl (\<lambda>a c. 10 * a + (int (of_char c) - 48)) 0 s"

definition daysFromCivil :: "int \<Rightarrow> int \<Rightarrow> int \<Rightarrow> int" where
  "daysFromCivil y m d =
     (let y' = (if m \<le> 2 then y - 1 else y);
          era = y' div 400;
          yoe = y' - era * 400;
          mp = (m + 9) mod 12;
          doy = (153 * mp + 2) div 5 + d - 1;
          doe = yoe * 365 + yoe div 4 - yoe div 100 + doy
      in era * 146097 + doe - 719468)"

definition isDigit :: "char \<Rightarrow> bool" where
  "isDigit c \<longleftrightarrow> 48 \<le> (of_char c :: nat) \<and> (of_char c :: nat) \<le> 57"

definition isoDay :: "string \<Rightarrow> int option" where
  "isoDay s =
     (let y = digitsValue (take 4 s);
          m = digitsValue (take 2 (drop 5 s));
          d = digitsValue (take 2 (drop 8 s))
      in if length s = 10 \<and> s ! 4 = CHR ''-'' \<and> s ! 7 = CHR ''-''
            \<and> list_all isDigit (take 4 s @ take 2 (drop 5 s) @ take 2 (drop 8 s))
            \<and> 100 \<le> y \<and> 1 \<le> m \<and> m \<le> 12 \<and> 1 \<le> d \<and> d \<le> 31
         then Some (daysFromCivil y m d) else None)"

definition codePointCompare :: "string \<Rightarrow> string \<Rightarrow> real" where
  "codePointCompare a b = (if a < b then - 1 else if a = b then 0 else 1)"

text \<open>\<^verbatim>\<open>n < 0 ? Math.ceil(n) || 0 : Math.floor(n)\<close> of the quotient \<open>a / b\<close>, for \<open>b > 0\<close>.\<close>

definition absFloorQuotient :: "int \<Rightarrow> int \<Rightarrow> int" where
  "absFloorQuotient a b = (if a < 0 then - ((- a) div b) else a div b)"

text \<open>
  A process in a zone without daylight saving, \<^verbatim>\<open>TZ=UTC\<close>: every day starts 1440 minutes after
  the one before and the offset never changes.
\<close>

definition utcPlatform :: platform where
  "utcPlatform =
     \<lparr>dayjsDiff = (\<lambda>this that.
         case (isoDay this, isoDay that) of
           (Some n, Some k) \<Rightarrow> Some (absFloorQuotient (n * 1440 - k * 1440) 1440)
         | _ \<Rightarrow> None),
      localeCompare = codePointCompare\<rparr>"

text \<open>
  A process with \<^verbatim>\<open>TZ=America/Santiago\<close>, between the transitions of April 2025 and April 2026
  (dates from 2025-05-01, day 20209, to 2026-03-01, day 20513; \<open>None\<close> outside). Daylight
  saving starts at local midnight of 2025-09-07, day 20338: until the day before, a day starts
  at 04:00 UTC and the offset is -240 minutes; the local midnight of 2025-09-07 does not exist
  and \<^verbatim>\<open>Date\<close> resolves it to 01:00 local time, again 04:00 UTC, with offset -180; from
  2025-09-08 on a day starts at 03:00 UTC with offset -180.
\<close>

definition santiagoStart :: "int \<Rightarrow> int" where
  "santiagoStart n = n * 1440 + (if n \<le> 20338 then 240 else 180)"

definition santiagoUtcOffset :: "int \<Rightarrow> int" where
  "santiagoUtcOffset n = (if n < 20338 then - 240 else - 180)"

definition santiagoDay :: "string \<Rightarrow> int option" where
  "santiagoDay s =
     (case isoDay s of
        None \<Rightarrow> None
      | Some n \<Rightarrow> if 20209 \<le> n \<and> n \<le> 20513 then Some n else None)"

text \<open>
  A process with \<^verbatim>\<open>TZ=UTC\<close> and a Czech locale, in whose alphabet the digraph \<open>ch\<close> follows
  \<open>h\<close>: \<^verbatim>\<open>"ch".localeCompare("d")\<close> is positive there. The record holds that and, on other
  strings, the order of the code points, which is claimed of dates only.
\<close>

definition czechCompare :: "string \<Rightarrow> string \<Rightarrow> real" where
  "czechCompare a b =
     (if a = ''ch'' \<and> b = ''d'' then 1
      else if a = ''d'' \<and> b = ''ch'' then - 1
      else codePointCompare a b)"

definition czechPlatform :: platform where
  "czechPlatform = \<lparr>dayjsDiff = dayjsDiff utcPlatform, localeCompare = czechCompare\<rparr>"

definition santiagoPlatform :: platform where
  "santiagoPlatform =
     \<lparr>dayjsDiff = (\<lambda>this that.
         case (santiagoDay this, santiagoDay that) of
           (Some n, Some k) \<Rightarrow>
             Some (absFloorQuotient
                     (santiagoStart n - santiagoStart k
                      - (santiagoUtcOffset k - santiagoUtcOffset n))
                     1440)
         | _ \<Rightarrow> None),
      localeCompare = codePointCompare\<rparr>"

subsection \<open>The deduplication as the specification words it\<close>



text \<open>The gap is the day difference as the process computes it; no number is no gap.\<close>

definition spec_gapOk :: "platform \<Rightarrow> Break \<Rightarrow> Break \<Rightarrow> bool" where
  "spec_gapOk pf a b \<longleftrightarrow>
     (case daysDiff pf (detectedDate a) (detectedDate b) of None \<Rightarrow> False | Some gap \<Rightarrow> gap \<le> 1)"




text \<open>
  The string comparison of the process agrees with the order of the code points on a list of
  strings, as it does on dates of the shape \<^verbatim>\<open>YYYY-MM-DD\<close>.
\<close>

definition collatesByCodePoint :: "platform \<Rightarrow> string list \<Rightarrow> bool" where
  "collatesByCodePoint pf ds \<longleftrightarrow>
     list_all (\<lambda>a. list_all (\<lambda>b. (localeCompare pf a b \<le> 0) = (a \<le> b)) ds) ds"

subsection \<open>Inputs for the example runs\<close>

text \<open>
  One funnel, three consecutive days, the click-to-landing rate falling from 1/2 to 1/10 to
  1/50, with windows of one day each so that one earlier day is a full baseline.
\<close>

definition exConfig :: PartialBreakDetectorConfig where
  "exConfig =
     \<lparr>opt_baselineWindowDays = Some 1, opt_currentWindowDays = Some 1,
      opt_minRelativeDrop = None, opt_minZScore = None, opt_minBaselineDataPoints = Some 1\<rparr>"

definition exCfg :: BreakDetectorConfig where
  "exCfg =
     \<lparr>baselineWindowDays = 1, currentWindowDays = 1, minRelativeDrop = 3 / 20,
      minZScore = 3 / 2, minBaselineDataPoints = 1\<rparr>"

definition exDay :: "string \<Rightarrow> real \<Rightarrow> ConversionRates" where
  "exDay d r =
     \<lparr>cr_date = d, cr_funnelId = ''f'',
      rates = [\<lparr>re_fromStage = CLICK, re_toStage = LANDING, rate = r,
                fromCount = 100, toCount = 0\<rparr>]\<rparr>"

definition exRates :: "ConversionRates list" where
  "exRates = [exDay ''2025-01-01'' (1 / 2), exDay ''2025-01-02'' (1 / 10), exDay ''2025-01-03'' (1 / 50)]"

definition exSeries :: "RateDataPoint list" where
  "exSeries =
     [\<lparr>dp_date = ''2025-01-01'', dp_rate = 1 / 2\<rparr>,
      \<lparr>dp_date = ''2025-01-02'', dp_rate = 1 / 10\<rparr>,
      \<lparr>dp_date = ''2025-01-03'', dp_rate = 1 / 50\<rparr>]"

definition exBreak :: "string \<Rightarrow> real \<Rightarrow> real \<Rightarrow> Break" where
  "exBreak d bm cm =
     \<lparr>funnelId = ''f'', fromStage = CLICK, toStage = LANDING, detectedDate = d,
      baselineRate = bm, currentRate = cm, absoluteDrop = bm - cm,
      relativeDrop = (bm - cm) / bm, zScore = (bm - cm) * 100, severity = CRITICAL\<rparr>"

text \<open>The same two first days with the sign of every rate flipped.\<close>

definition negRates :: "ConversionRates list" where
  "negRates = [exDay ''2025-01-01'' (- (1 / 2)), exDay ''2025-01-02'' (- (1 / 10))]"

definition negSeries :: "RateDataPoint list" where
  "negSeries =
     [\<lparr>dp_date = ''2025-01-01'', dp_rate = - (1 / 2)\<rparr>,
      \<lparr>dp_date = ''2025-01-02'', dp_rate = - (1 / 10)\<rparr>]"

text \<open>A snapshot with no impressions, 100 clicks and 50 landings.\<close>

definition exSnapshot :: FunnelSnapshot where
  "exSnapshot =
     \<lparr>snap_date = ''2025-01-01'', snap_funnelId = ''f'',
      stageCounts = (\<lambda>stage. case stage of CLICK \<Rightarrow> 100 | LANDING \<Rightarrow> 50 | _ \<Rightarrow> 0)\<rparr>"

text \<open>
  Five changes around the break of the second day: one dated after it, one of another funnel,
  one of the funnel on the day, one for all funnels on the day, one a month old. All are site
  changes of severity 4 that name the landing stage.
\<close>

definition exChange :: "string \<Rightarrow> string \<Rightarrow> string \<Rightarrow> Change" where
  "exChange desc d fid =
     \<lparr>ch_id = None, ch_date = d, ch_funnelId = fid, category = SITE, description = desc,
      ch_severity = 4, affectedStages = Some [''landing'']\<rparr>"

definition exChanges :: "Change list" where
  "exChanges =
     [exChange ''future'' ''2025-01-03'' ''f'',
      exChange ''other funnel'' ''2025-01-02'' ''g'',
      exChange ''site change'' ''2025-01-02'' ''f'',
      exChange ''global change'' ''2025-01-02'' ''*'',
      exChange ''too old'' ''2024-12-01'' ''f'']"

definition noOverrides :: PartialCauseAnalyzerConfig where
  "noOverrides =
     \<lparr>opt_maxTemporalDistanceDays = None, opt_temporalWeight = None, opt_categoryWeight = None,
      opt_severityWeight = None, opt_stageMatchWeight = None, opt_minConfidenceThreshold = None\<rparr>"

definition exCandidate :: "string \<Rightarrow> CauseCandidate" where
  "exCandidate desc =
     \<lparr>changeId = [], changeDescription = desc, changeCategory = SITE,
      changeDate = ''2025-01-02'', changeSeverity = 4, confidence = 21 / 25,
      scoreBreakdown =
        \<lparr>temporalScore = 1, categoryRelevanceScore = 9 / 10, severityScore = 3 / 4,
         stageMatchBonus = 1 / 5\<rparr>\<rparr>"

text \<open>
  The clock reads the same instant at every call; the formatter is tabulated at the two
  numbers that the example formats.
\<close>

definition exToFixed :: "real \<Rightarrow> nat \<Rightarrow> string" where
  "exToFixed x d =
     (if x = 80 \<and> d = 1 then ''80.0'' else if x = 84 \<and> d = 0 then ''84'' else ''?'')"

definition exClock :: "string \<Rightarrow> nat \<Rightarrow> string" where
  "exClock t k = t"

definition exDiagnosis :: "string \<Rightarrow> Diagnosis" where
  "exDiagnosis t =
     \<lparr>generatedAt = t, brk = exBreak ''2025-01-02'' (1 / 2) (1 / 10),
      causes = [exCandidate ''site change'', exCandidate ''global change''],
      diagnosisStatus = IDENTIFIED,
      summary = ''[CRITICAL] 80.0% conversion drop detected in '' @ dquote @ ''f'' @ dquote
                @ '' at click -> landing on 2025-01-02. Most likely cause (84% confidence): ''
                @ dquote @ ''site change'' @ dquote @ '' (site, 2025-01-02).''\<rparr>"

text \<open>
  A break detected on 2025-09-07 and one change of the funnel dated the day after it, with the
  two diagnoses that the example runs return: one that names the change as the cause, one
  without causes.
\<close>

definition dstChanges :: "Change list" where
  "dstChanges = [exChange ''next day'' ''2025-09-08'' ''f'']"

definition dstCandidate :: CauseCandidate where
  "dstCandidate =
     \<lparr>changeId = [], changeDescription = ''next day'', changeCategory = SITE,
      changeDate = ''2025-09-08'', changeSeverity = 4, confidence = 21 / 25,
      scoreBreakdown =
        \<lparr>temporalScore = 1, categoryRelevanceScore = 9 / 10, severityScore = 3 / 4,
         stageMatchBonus = 1 / 5\<rparr>\<rparr>"

definition dstDiagnosis :: "string \<Rightarrow> Diagnosis" where
  "dstDiagnosis t =
     \<lparr>generatedAt = t, brk = exBreak ''2025-09-07'' (1 / 2) (1 / 10),
      causes = [dstCandidate],
      diagnosisStatus = IDENTIFIED,
      summary = ''[CRITICAL] 80.0% conversion drop detected in '' @ dquote @ ''f'' @ dquote
                @ '' at click -> landing on 2025-09-07. Most likely cause (84% confidence): ''
                @ dquote @ ''next day'' @ dquote @ '' (site, 2025-09-08).''\<rparr>"

definition dstNoCause :: "string \<Rightarrow> Diagnosis" where
  "dstNoCause t =
     \<lparr>generatedAt = t, brk = exBreak ''2025-09-07'' (1 / 2) (1 / 10),
      causes = [],
      diagnosisStatus = UNKNOWN,
      summary = ''[CRITICAL] 80.0% conversion drop detected in '' @ dquote @ ''f'' @ dquote
                @ '' at click -> landing on 2025-09-07.''
                @ '' No candidate causes found within the analysis window.''\<rparr>"

text \<open>An event without identifier and source.\<close>

definition exEvent :: "string \<Rightarrow> string \<Rightarrow> FunnelStage \<Rightarrow> int \<Rightarrow> Event" where
  "exEvent fid d st n =
     \<lparr>ev_id = None, ev_date = d, ev_funnelId = fid, ev_stage = st, ev_count = n, ev_source = None\<rparr>"

section \<open>Properties\<close>

subsection \<open>Sorting; the deduplication returns breaks it was given\<close>

lemma bindE_Inr [simp]: "bindE (Inr x) f = f x"
  by (simp add: bindE_def)

lemma bindE_Inl [simp]: "bindE (Inl e) f = Inl e"
  by (simp add: bindE_def)

lemma bindE_eq_Inr: "bindE m f = Inr y \<longleftrightarrow> (\<exists>x. m = Inr x \<and> f x = Inr y)"
  by (cases m) simp_all

lemma mapE_map: "(\<And>x. x \<in> set xs \<Longrightarrow> f x = Inr (g x)) \<Longrightarrow> mapE f xs = Inr (map g xs)"
  by (induction xs) simp_all

lemma mapE_total:
  "(\<And>x. x \<in> set xs \<Longrightarrow> \<exists>y. f x = Inr y) \<Longrightarrow> \<exists>ys. mapE f xs = Inr ys"
proof (induction xs)
  case Nil
  show ?case by simp
next
  case (Cons x xs)
  from Cons.prems[of x] obtain y where y: "f x = Inr y" by auto
  from Cons.IH Cons.prems obtain ys where "mapE f xs = Inr ys" by auto
  with y show ?case by simp
qed


lemma mapE_mem:
  "mapE f xs = Inr ys \<Longrightarrow> y \<in> set ys \<Longrightarrow> \<exists>x\<in>set xs. f x = Inr y"
proof (induction xs arbitrary: ys)
  case Nil
  then show ?case by simp
next
  case (Cons x xs)
  from Cons.prems(1) obtain z ys' where z: "f x = Inr z" "mapE f xs = Inr ys'" "ys = z # ys'"
    by (auto simp: bindE_eq_Inr)
  show ?case
  proof (cases "y = z")
    case True
    with z show ?thesis by simp
  next
    case False
    with z Cons.prems(2) have "y \<in> set ys'" by simp
    from Cons.IH[OF z(2) this] show ?thesis by auto
  qed
qed


lemma insertBy_insort_key:
  assumes "\<And>y. y \<in> set ys \<Longrightarrow> cmp x y \<le> 0 \<longleftrightarrow> f x \<le> f y"
  shows "insertBy cmp x ys = insort_key f x ys"
  using assms by (induction ys) simp_all

lemma sortBy_sort_key:
  assumes "\<And>x y. x \<in> set xs \<Longrightarrow> y \<in> set xs \<Longrightarrow> cmp x y \<le> 0 \<longleftrightarrow> f x \<le> f y"
  shows "sortBy cmp xs = sort_key f xs"
  using assms
proof (induction xs)
  case Nil
  show ?case by (simp add: sortBy_def)
next
  case (Cons x xs)
  have "sortBy cmp xs = sort_key f xs" using Cons by simp
  moreover have "insertBy cmp x (sort_key f xs) = insort_key f x (sort_key f xs)"
    by (rule insertBy_insort_key) (simp add: Cons.prems)
  ultimately show ?case by (simp add: sortBy_def)
qed

lemma set_insertBy: "set (insertBy cmp x ys) = insert x (set ys)"
  by (induction ys) auto

lemma set_sortBy: "set (sortBy cmp xs) = set xs"
  by (induction xs) (simp_all add: sortBy_def set_insertBy)

lemma sortBy_Nil_iff: "sortBy cmp xs = [] \<longleftrightarrow> xs = []"
  by (metis set_sortBy set_empty)

lemma collatesByCodePoint_iff:
  "collatesByCodePoint pf ds \<longleftrightarrow> (\<forall>a\<in>set ds. \<forall>b\<in>set ds. (localeCompare pf a b \<le> 0) = (a \<le> b))"
  by (simp add: collatesByCodePoint_def list_all_iff)



lemma pickPeakBreak_mem: "pickPeakBreak c = Inr p \<Longrightarrow> p \<in> set c"
proof (cases c)
  case Nil
  then show "pickPeakBreak c = Inr p \<Longrightarrow> p \<in> set c" by simp
next
  case (Cons first rest)
  have "foldl (\<lambda>best cur. if \<bar>zScore cur\<bar> > \<bar>zScore best\<bar> then cur else best) a rest \<in> insert a (set rest)" for a
    by (induction rest arbitrary: a) auto
  with Cons show "pickPeakBreak c = Inr p \<Longrightarrow> p \<in> set c" by auto
qed

lemma pickPeakBreak_total: "c \<noteq> [] \<Longrightarrow> \<exists>p. pickPeakBreak c = Inr p"
  by (cases c) simp_all

lemma clusterLoop_total:
  "cluster \<noteq> [] \<Longrightarrow> \<exists>cl dd. clusterLoop pf prev cluster deduplicated rest = Inr (cl, dd) \<and> cl \<noteq> []"
proof (induction rest arbitrary: prev cluster deduplicated)
  case Nil
  then show ?case by simp
next
  case (Cons cur rest)
  obtain p where p: "pickPeakBreak cluster = Inr p"
    using pickPeakBreak_total[OF Cons.prems] by blast
  show ?case
    using Cons.IH[of "cluster @ [cur]" cur deduplicated] Cons.IH[of "[cur]" cur "deduplicated @ [p]"] p
    by simp
qed

lemma clusterLoop_subset:
  "clusterLoop pf prev cluster deduplicated rest = Inr (cl, dd) \<Longrightarrow>
     set cl \<union> set dd \<subseteq> set cluster \<union> set deduplicated \<union> set rest"
proof (induction rest arbitrary: prev cluster deduplicated)
  case Nil
  then show ?case by auto
next
  case (Cons cur rest)
  show ?case
  proof (cases "spec_gapOk pf prev cur")
    case True
    with Cons.prems have "clusterLoop pf cur (cluster @ [cur]) deduplicated rest = Inr (cl, dd)"
      by (simp add: spec_gapOk_def)
    from Cons.IH[OF this] show ?thesis by auto
  next
    case False
    with Cons.prems obtain p where p: "pickPeakBreak cluster = Inr p"
      and l: "clusterLoop pf cur [cur] (deduplicated @ [p]) rest = Inr (cl, dd)"
      by (auto simp: spec_gapOk_def split: sum.splits)
    from Cons.IH[OF l] pickPeakBreak_mem[OF p] show ?thesis by auto
  qed
qed

lemma dedupGroup_subset:
  "dedupGroup pf deduplicated g = Inr dd \<Longrightarrow> set dd \<subseteq> set deduplicated \<union> set g"
proof -
  assume a: "dedupGroup pf deduplicated g = Inr dd"
  then obtain first rest cl dd' p where s: "sortBy (compareDetected pf) g = first # rest"
    and l: "clusterLoop pf first [first] deduplicated rest = Inr (cl, dd')"
    and p: "pickPeakBreak cl = Inr p" and e: "dd = dd' @ [p]"
    by (auto simp: dedupGroup_def split: list.splits sum.splits)
  have "set g = insert first (set rest)"
    using s set_sortBy[of "compareDetected pf" g] by simp
  with clusterLoop_subset[OF l] pickPeakBreak_mem[OF p] e show ?thesis by auto
qed

lemma dedupGroup_total: "g \<noteq> [] \<Longrightarrow> \<exists>dd. dedupGroup pf deduplicated g = Inr dd"
proof -
  assume "g \<noteq> []"
  then obtain first rest where s: "sortBy (compareDetected pf) g = first # rest"
    by (cases "sortBy (compareDetected pf) g") (simp_all add: sortBy_Nil_iff)
  obtain cl dd where "clusterLoop pf first [first] deduplicated rest = Inr (cl, dd)" "cl \<noteq> []"
    using clusterLoop_total[of "[first]" pf first deduplicated rest] by auto
  moreover obtain p where "pickPeakBreak cl = Inr p"
    using pickPeakBreak_total[OF \<open>cl \<noteq> []\<close>] by blast
  ultimately show ?thesis using s by (simp add: dedupGroup_def)
qed

lemma dedupGroups_subset:
  "dedupGroups pf deduplicated gs = Inr dd \<Longrightarrow> set dd \<subseteq> set deduplicated \<union> (\<Union>g\<in>set gs. set (snd g))"
proof (induction gs arbitrary: deduplicated)
  case Nil
  then show ?case by simp
next
  case (Cons kg gs)
  obtain k g where kg: "kg = (k, g)" by (cases kg)
  with Cons.prems obtain d1 where d1: "dedupGroup pf deduplicated g = Inr d1"
    and r: "dedupGroups pf d1 gs = Inr dd"
    by (auto split: sum.splits)
  from Cons.IH[OF r] dedupGroup_subset[OF d1] kg show ?case by auto
qed

lemma dedupGroups_total:
  "\<forall>g\<in>set gs. snd g \<noteq> [] \<Longrightarrow> \<exists>dd. dedupGroups pf deduplicated gs = Inr dd"
proof (induction gs arbitrary: deduplicated)
  case Nil
  then show ?case by simp
next
  case (Cons kg gs)
  obtain k g where kg: "kg = (k, g)" by (cases kg)
  with Cons.prems have "g \<noteq> []" by simp
  then obtain d1 where d1: "dedupGroup pf deduplicated g = Inr d1"
    using dedupGroup_total by blast
  from Cons.prems obtain dd where "dedupGroups pf d1 gs = Inr dd"
    using Cons.IH[of d1] by auto
  with d1 kg show ?case by simp
qed

lemma groupPush_members:
  "(\<Union>g\<in>set (groupPush key b gs). set (snd g)) = insert b (\<Union>g\<in>set gs. set (snd g))"
proof (induction key b gs rule: groupPush.induct)
  case (1 key b)
  show ?case by simp
next
  case (2 key b k g gs)
  show ?case
  proof (cases "k = key")
    case True
    then show ?thesis by auto
  next
    case False
    with 2 show ?thesis by auto
  qed
qed

lemma groupPush_nonempty:
  "\<forall>g\<in>set gs. snd g \<noteq> [] \<Longrightarrow> \<forall>g\<in>set (groupPush key b gs). snd g \<noteq> []"
  by (induction key b gs rule: groupPush.induct) simp_all

lemma groups_snoc: "groups (bs @ [b]) = groupPush (groupKey b) b (groups bs)"
  by (simp add: groups_def)

lemma groups_members: "(\<Union>g\<in>set (groups bs). set (snd g)) = set bs"
  by (induction bs rule: rev_induct) (simp_all add: groups_snoc groupPush_members, simp add: groups_def)

lemma groups_nonempty: "\<forall>g\<in>set (groups bs). snd g \<noteq> []"
proof (induction bs rule: rev_induct)
  case Nil
  then show ?case by (simp add: groups_def)
next
  case (snoc b bs)
  then show ?case unfolding groups_snoc by (rule groupPush_nonempty)
qed

lemma deduplicateConsecutiveBreaks_total: "\<exists>r. deduplicateConsecutiveBreaks pf bs = Inr r"
  using dedupGroups_total[OF groups_nonempty, of pf "[]" bs]
  by (auto simp: deduplicateConsecutiveBreaks_def)

lemma deduplicateConsecutiveBreaks_subset:
  "deduplicateConsecutiveBreaks pf bs = Inr r \<Longrightarrow> set r \<subseteq> set bs"
  using dedupGroups_subset[of pf "[]" "groups bs"] groups_members[of bs]
  by (auto simp: deduplicateConsecutiveBreaks_def set_sortBy split: if_splits sum.splits)

subsection \<open>The arithmetic of the detector meets no zero divisor\<close>

lemma set_map_filter: "set (List.map_filter f xs) = {y. \<exists>x\<in>set xs. f x = Some y}"
  by (force simp: List.map_filter_def image_iff)

lemma foldl_add_nonneg: "0 \<le> a \<Longrightarrow> \<forall>v\<in>set vs. 0 \<le> v \<Longrightarrow> 0 \<le> foldl (\<lambda>sum v. sum + v) (a::real) vs"
  by (induction vs arbitrary: a) simp_all

lemma foldl_zero: "\<forall>v\<in>set vs. v = 0 \<Longrightarrow> foldl (\<lambda>sum v. sum + v) (0::real) vs = 0"
  by (induction vs) simp_all

lemma mean_value:
  "mean vs = Inr (if vs = [] then 0 else foldl (\<lambda>sum v. sum + v) 0 vs / real (length vs))"
  by (simp add: mean_def checkedDivide_def)

lemma mean_total: "\<exists>m. mean vs = Inr m"
  by (simp add: mean_value)

lemma mean_nonneg: "mean vs = Inr m \<Longrightarrow> \<forall>v\<in>set vs. 0 \<le> v \<Longrightarrow> 0 \<le> m"
  by (auto simp: mean_value foldl_add_nonneg split: if_splits)

lemma mean_zero: "\<forall>v\<in>set vs. v = 0 \<Longrightarrow> mean vs = Inr 0"
  by (simp add: mean_value foldl_zero)

lemma stddev_total: "\<exists>s. stddev vs = Inr s"
proof (cases "length vs < 2")
  case True
  then show ?thesis by (simp add: stddev_def)
next
  case False
  obtain avg where avg: "mean vs = Inr avg" using mean_total by blast
  define total where "total = foldl (\<lambda>sum v. sum + v) 0 (map (\<lambda>v. (v - avg) ^ 2) vs)"
  define n where "n = real (length vs) - 1"
  have p: "0 < n" using False by (simp add: n_def)
  have "0 \<le> total"
    unfolding total_def by (rule foldl_add_nonneg) simp_all
  with p have q: "0 \<le> total / n" by simp
  have d: "checkedDivide total n = Inr (total / n)"
    using p by (simp add: checkedDivide_def)
  have r: "checkedSqrt (total / n) = Inr (sqrt (total / n))"
    using q by (simp add: checkedSqrt_def)
  have "stddev vs = bindE (checkedDivide total n) checkedSqrt"
    using False by (simp add: stddev_def Let_def avg total_def n_def)
  then show ?thesis by (simp add: d r)
qed

lemma windowStats_total: "\<exists>r. windowStats pf cfg ts d = Inr r"
proof -
  obtain bm where bm: "mean (map dp_rate (baselinePoints pf cfg ts d)) = Inr bm"
    using mean_total by blast
  obtain sd where sd: "stddev (map dp_rate (baselinePoints pf cfg ts d)) = Inr sd"
    using stddev_total by blast
  obtain cm where cm: "mean (map dp_rate (currentPoints pf cfg ts d)) = Inr cm"
    using mean_total by blast
  show ?thesis by (simp add: windowStats_def Let_def bm sd cm)
qed

lemma windowStats_Some:
  assumes "windowStats pf cfg ts d = Inr (Some (bm, sd, cm))"
  shows "mean (map dp_rate (baselinePoints pf cfg ts d)) = Inr bm" "bm \<noteq> 0"
    "stddev (map dp_rate (baselinePoints pf cfg ts d)) = Inr sd"
    "mean (map dp_rate (currentPoints pf cfg ts d)) = Inr cm"
    "minBaselineDataPoints cfg \<le> real (length (baselinePoints pf cfg ts d))"
    "currentPoints pf cfg ts d \<noteq> []"
  using assms by (auto simp: windowStats_def Let_def bindE_eq_Inr split: if_splits)

lemma flagBreak_total: "bm \<noteq> 0 \<Longrightarrow> \<exists>r. flagBreak cfg fid from to d (bm, sd, cm) = Inr r"
proof -
  assume bm: "bm \<noteq> 0"
  have "max sd (0.01::real) \<noteq> 0" by simp
  with bm show ?thesis by (simp add: flagBreak_def Let_def checkedDivide_def)
qed

lemma flagBreak_fields:
  assumes "flagBreak cfg fid from to d (bm, sd, cm) = Inr (Some b)"
  shows "funnelId b = fid" "fromStage b = from" "toStage b = to" "detectedDate b = d"
    "baselineRate b = bm" "currentRate b = cm" "absoluteDrop b = bm - cm"
    "relativeDrop b = (bm - cm) / bm" "zScore b = (bm - cm) / max sd 0.01"
    "severity b = classifySeverity (relativeDrop b) (zScore b)"
    "relativeDrop b \<ge> minRelativeDrop cfg" "\<bar>zScore b\<bar> \<ge> minZScore cfg"
    "bm \<noteq> 0"
  using assms
  by (auto simp: flagBreak_def Let_def checkedDivide_def bindE_eq_Inr split: if_splits)

lemma detectAt_total: "\<exists>r. detectAt pf cfg ts fid from to d = Inr r"
proof -
  obtain w where w: "windowStats pf cfg ts d = Inr w" using windowStats_total by blast
  show ?thesis
  proof (cases w)
    case None
    with w show ?thesis by (simp add: detectAt_def)
  next
    case (Some stats)
    obtain bm sd cm where st: "stats = (bm, sd, cm)" by (cases stats)
    from w Some st have "bm \<noteq> 0" using windowStats_Some(2) by blast
    from flagBreak_total[OF this] w Some st show ?thesis by (simp add: detectAt_def)
  qed
qed

lemma detectBreaksInSeries_total: "\<exists>bs. detectBreaksInSeries pf ts fid from to cfg = Inr bs"
proof -
  obtain pushed where "mapE (\<lambda>dp. detectAt pf cfg ts fid from to (dp_date dp)) ts = Inr pushed"
    using mapE_total[of ts "\<lambda>dp. detectAt pf cfg ts fid from to (dp_date dp)"] detectAt_total
    by blast
  then show ?thesis by (simp add: detectBreaksInSeries_def)
qed

lemma allBreaks_total: "\<exists>raw. allBreaks pf crs cfg = Inr raw"
proof -
  have inner: "\<exists>bs. bindE (mapE (\<lambda>pair. case pair of (from, to) \<Rightarrow>
                    detectBreaksInSeries pf (extractTimeSeries pf fr from to) fid from to cfg) stagePairs)
                 (\<lambda>perPair. Inr (concat perPair)) = Inr bs" for fr fid
  proof -
    have "\<exists>ys. mapE (\<lambda>pair. case pair of (from, to) \<Rightarrow>
                    detectBreaksInSeries pf (extractTimeSeries pf fr from to) fid from to cfg) stagePairs = Inr ys"
      by (rule mapE_total) (auto simp: detectBreaksInSeries_total)
    then show ?thesis by auto
  qed
  have "\<exists>ys. mapE (\<lambda>fid.
              (let funnelRates =
                     sortBy (\<lambda>a b. localeCompare pf (cr_date a) (cr_date b))
                       (filter (\<lambda>cr. cr_funnelId cr = fid) crs)
               in bindE (mapE (\<lambda>pair. case pair of (from, to) \<Rightarrow>
                                 detectBreaksInSeries pf (extractTimeSeries pf funnelRates from to)
                                   fid from to cfg)
                               stagePairs)
                    (\<lambda>perPair. Inr (concat perPair))))
            (uniqueInOrder (map cr_funnelId crs)) = Inr ys"
    by (rule mapE_total) (simp add: Let_def inner)
  then show ?thesis by (auto simp: allBreaks_def)
qed

subsection \<open>What the detector puts into a break\<close>

lemma detectBreaks_result:
  "\<exists>raw breaks. allBreaks pf crs (mergeBreakDetectorConfig config) = Inr raw
       \<and> detectBreaks pf crs config = Inr breaks \<and> set breaks \<subseteq> set raw"
proof -
  obtain raw where raw: "allBreaks pf crs (mergeBreakDetectorConfig config) = Inr raw"
    using allBreaks_total by blast
  obtain breaks where b: "deduplicateConsecutiveBreaks pf raw = Inr breaks"
    using deduplicateConsecutiveBreaks_total by blast
  from deduplicateConsecutiveBreaks_subset[OF b] raw b show ?thesis
    by (simp add: detectBreaks_def)
qed

lemma detectBreaksInSeries_origin:
  assumes "detectBreaksInSeries pf ts fid fr t cfg = Inr bs" "b \<in> set bs"
  obtains d stats where "windowStats pf cfg ts d = Inr (Some stats)"
    "flagBreak cfg fid fr t d stats = Inr (Some b)"
proof -
  from assms(1) obtain pushed where
    p: "mapE (\<lambda>dp. detectAt pf cfg ts fid fr t (dp_date dp)) ts = Inr pushed"
    and bs: "bs = List.map_filter (\<lambda>p. p) pushed"
    by (auto simp: detectBreaksInSeries_def bindE_eq_Inr)
  from assms(2) bs have "Some b \<in> set pushed" by (auto simp: set_map_filter)
  from mapE_mem[OF p this] obtain dp :: RateDataPoint where "detectAt pf cfg ts fid fr t (dp_date dp) = Inr (Some b)"
    by blast
  then obtain stats where "windowStats pf cfg ts (dp_date dp) = Inr (Some stats)"
    "flagBreak cfg fid fr t (dp_date dp) stats = Inr (Some b)"
    by (auto simp: detectAt_def bindE_eq_Inr split: option.splits)
  then show ?thesis by (rule that)
qed

lemma allBreaks_origin:
  assumes "allBreaks pf crs cfg = Inr raw" "b \<in> set raw"
  obtains fid fr t d stats where
    "windowStats pf cfg
       (extractTimeSeries pf
          (sortBy (\<lambda>a b. localeCompare pf (cr_date a) (cr_date b))
             (filter (\<lambda>cr. cr_funnelId cr = fid) crs)) fr t) d = Inr (Some stats)"
    "flagBreak cfg fid fr t d stats = Inr (Some b)"
proof -
  define series where "series = (\<lambda>fid. sortBy (\<lambda>a b. localeCompare pf (cr_date a) (cr_date b))
             (filter (\<lambda>cr. cr_funnelId cr = fid) crs))"
  define inSeries where "inSeries = (\<lambda>fid pair. case pair of (from, to) \<Rightarrow>
      detectBreaksInSeries pf (extractTimeSeries pf (series fid) from to) fid from to cfg)"
  define inner where "inner = (\<lambda>fid. mapE (inSeries fid) stagePairs)"
  have ab: "allBreaks pf crs cfg =
      bindE (mapE (\<lambda>fid. bindE (inner fid) (\<lambda>perPair. Inr (concat perPair)))
               (uniqueInOrder (map cr_funnelId crs)))
        (\<lambda>perFunnel. Inr (concat perFunnel))"
    by (simp add: allBreaks_def Let_def inner_def inSeries_def series_def)
  from assms(1) obtain perFunnel where
    pf1: "mapE (\<lambda>fid. bindE (inner fid) (\<lambda>perPair. Inr (concat perPair)))
               (uniqueInOrder (map cr_funnelId crs)) = Inr perFunnel"
    and raw: "raw = concat perFunnel"
    unfolding ab bindE_eq_Inr by auto
  from assms(2) raw obtain bsf where bsf: "bsf \<in> set perFunnel" "b \<in> set bsf" by auto
  from mapE_mem[OF pf1 bsf(1)] obtain fid where
    "bindE (inner fid) (\<lambda>perPair. Inr (concat perPair)) = Inr bsf" by blast
  then obtain perPair where pp: "inner fid = Inr perPair" and e: "bsf = concat perPair"
    unfolding bindE_eq_Inr by auto
  from bsf(2) e obtain bsp where bsp: "bsp \<in> set perPair" "b \<in> set bsp" by auto
  from mapE_mem[OF pp[unfolded inner_def] bsp(1)] obtain pair where "inSeries fid pair = Inr bsp"
    by blast
  then obtain fr t where
    "detectBreaksInSeries pf (extractTimeSeries pf (series fid) fr t) fid fr t cfg = Inr bsp"
    by (cases pair) (simp add: inSeries_def)
  from detectBreaksInSeries_origin[OF this bsp(2)] obtain d stats where
    "windowStats pf cfg (extractTimeSeries pf (series fid) fr t) d = Inr (Some stats)"
    "flagBreak cfg fid fr t d stats = Inr (Some b)"
    by blast
  then show ?thesis unfolding series_def by (rule that)
qed

lemma find_mem: "List.find P xs = Some x \<Longrightarrow> x \<in> set xs"
  by (induction xs) (auto split: if_splits)

lemma extractTimeSeries_nonneg:
  assumes "\<forall>cr\<in>set crs. \<forall>r\<in>set (rates cr). 0 \<le> rate r"
  shows "\<forall>dp\<in>set (extractTimeSeries pf crs fr t). 0 \<le> dp_rate dp"
  using assms
  by (auto simp: extractTimeSeries_def set_sortBy split: option.splits dest: find_mem)

lemma windowStats_baseline_pos:
  assumes "windowStats pf cfg ts d = Inr (Some (bm, sd, cm))" and "\<forall>dp\<in>set ts. 0 \<le> dp_rate dp"
  shows "0 < bm"
proof -
  have "0 \<le> bm"
    by (rule mean_nonneg[OF windowStats_Some(1)[OF assms(1)]])
       (use assms(2) in \<open>auto simp: baselinePoints_def\<close>)
  with windowStats_Some(2)[OF assms(1)] show ?thesis by simp
qed

lemma flagBreak_genuine:
  assumes "flagBreak cfg fid fr t d (bm, sd, cm) = Inr (Some b)" and "0 < bm"
    and "0 < minRelativeDrop cfg"
  shows "0 < baselineRate b \<and> 0 < absoluteDrop b \<and> 0 < zScore b \<and> currentRate b < baselineRate b"
proof -
  note f = flagBreak_fields[OF assms(1)]
  have "0 < (bm - cm) / bm" using f(8,11) assms(3) by simp
  with assms(2) have d: "0 < bm - cm" by (simp add: zero_less_divide_iff)
  have "0 < max sd (0.01::real)" by simp
  with d have "0 < (bm - cm) / max sd 0.01" by (simp only: zero_less_divide_iff, simp)
  with d assms(2) f show ?thesis by simp
qed

subsection \<open>Conversion rates\<close>

lemma rateEntryOf_value:
  "rateEntryOf s (fr, t) =
     Inr \<lparr>re_fromStage = fr, re_toStage = t,
          rate = (if 0 < stageCounts s fr
                  then real_of_int (stageCounts s t) / real_of_int (stageCounts s fr) else 0),
          fromCount = stageCounts s fr, toCount = stageCounts s t\<rparr>"
  by (simp add: rateEntryOf_def Let_def checkedDivide_def)

lemma calculateConversionRates_value:
  "calculateConversionRates snapshots =
     Inr (map (\<lambda>s. \<lparr>cr_date = snap_date s, cr_funnelId = snap_funnelId s,
                     rates = map (\<lambda>p. \<lparr>re_fromStage = fst p, re_toStage = snd p,
                              rate = (if 0 < stageCounts s (fst p)
                                      then real_of_int (stageCounts s (snd p))
                                           / real_of_int (stageCounts s (fst p)) else 0),
                              fromCount = stageCounts s (fst p),
                              toCount = stageCounts s (snd p)\<rparr>) stagePairs\<rparr>) snapshots)"
proof -
  have "mapE (rateEntryOf s) stagePairs
      = Inr (map (\<lambda>p. \<lparr>re_fromStage = fst p, re_toStage = snd p,
                              rate = (if 0 < stageCounts s (fst p)
                                      then real_of_int (stageCounts s (snd p))
                                           / real_of_int (stageCounts s (fst p)) else 0),
                              fromCount = stageCounts s (fst p),
                              toCount = stageCounts s (snd p)\<rparr>) stagePairs)" for s
    by (rule mapE_map) (auto simp: rateEntryOf_value)
  then show ?thesis
    unfolding calculateConversionRates_def by (intro mapE_map) simp
qed

lemma calculateConversionRates_entry:
  assumes "calculateConversionRates snapshots = Inr crs" "cr \<in> set crs" and "r \<in> set (rates cr)"
  obtains s fr t where "s \<in> set snapshots" "(fr, t) \<in> set stagePairs"
    "rateEntryOf s (fr, t) = Inr r"
    "cr_date cr = snap_date s" "cr_funnelId cr = snap_funnelId s"
  using assms unfolding calculateConversionRates_value
  by (auto simp: rateEntryOf_value)

lemma calculateConversionRates_nonneg:
  assumes "calculateConversionRates snapshots = Inr crs"
    and "\<forall>s\<in>set snapshots. \<forall>st. 0 \<le> stageCounts s st"
  shows "\<forall>cr\<in>set crs. \<forall>r\<in>set (rates cr). 0 \<le> rate r"
  using assms unfolding calculateConversionRates_value by auto

subsection \<open>The deduplication of the code computes the deduplication of the specification\<close>

lemma uniqueInOrder_snoc:
  "uniqueInOrder (xs @ [x]) = (if x \<in> set (uniqueInOrder xs) then uniqueInOrder xs else uniqueInOrder xs @ [x])"
  by (simp add: uniqueInOrder_def)

lemma uniqueInOrder_Nil: "uniqueInOrder [] = []"
  by (simp add: uniqueInOrder_def)

lemma set_uniqueInOrder: "set (uniqueInOrder xs) = set xs"
  by (induction xs rule: rev_induct) (auto simp: uniqueInOrder_snoc uniqueInOrder_Nil)

lemma distinct_uniqueInOrder: "distinct (uniqueInOrder xs)"
  by (induction xs rule: rev_induct) (auto simp: uniqueInOrder_snoc uniqueInOrder_Nil)



lemma split_at_last_separator:
  assumes "sep \<notin> set m1" "sep \<notin> set m2" "a1 @ sep # m1 = a2 @ sep # m2"
  shows "a1 = a2 \<and> m1 = m2"
  using assms
proof (induction a1 arbitrary: a2)
  case Nil
  then show ?case by (cases a2) auto
next
  case (Cons x a1)
  show ?case
  proof (cases a2)
    case Nil
    with Cons.prems show ?thesis by auto
  next
    case (Cons y a2')
    with Cons.prems Cons.IH[of a2'] show ?thesis by simp
  qed
qed

























subsection \<open>The example run\<close>

lemma iso0: "isoDay ''2024-12-01'' = Some 20058"
  by (simp add: isoDay_def isDigit_def digitsValue_def daysFromCivil_def)
lemma iso1: "isoDay ''2025-01-01'' = Some 20089"
  by (simp add: isoDay_def isDigit_def digitsValue_def daysFromCivil_def)
lemma iso2: "isoDay ''2025-01-02'' = Some 20090"
  by (simp add: isoDay_def isDigit_def digitsValue_def daysFromCivil_def)
lemma iso3: "isoDay ''2025-01-03'' = Some 20091"
  by (simp add: isoDay_def isDigit_def digitsValue_def daysFromCivil_def)
lemma iso5: "isoDay ''2025-01-05'' = Some 20093"
  by (simp add: isoDay_def isDigit_def digitsValue_def daysFromCivil_def)
lemma iso_sep6: "isoDay ''2025-09-06'' = Some 20337"
  by (simp add: isoDay_def isDigit_def digitsValue_def daysFromCivil_def)
lemma iso_sep7: "isoDay ''2025-09-07'' = Some 20338"
  by (simp add: isoDay_def isDigit_def digitsValue_def daysFromCivil_def)
lemma iso_sep8: "isoDay ''2025-09-08'' = Some 20339"
  by (simp add: isoDay_def isDigit_def digitsValue_def daysFromCivil_def)
lemma iso_sep9: "isoDay ''2025-09-09'' = Some 20340"
  by (simp add: isoDay_def isDigit_def digitsValue_def daysFromCivil_def)

lemmas iso_days = iso0 iso1 iso2 iso3 iso5 iso_sep6 iso_sep7 iso_sep8 iso_sep9

lemma absFloorQuotient_days: "absFloorQuotient (n * 1440 - k * 1440) 1440 = n - k"
proof -
  have e: "n * 1440 - k * 1440 = (n - k) * 1440" by (simp add: algebra_simps)
  have f: "- ((n - k) * 1440) = (k - n) * 1440" by (simp add: algebra_simps)
  show ?thesis unfolding e absFloorQuotient_def f by simp
qed

lemma utc_daysDiff:
  "daysDiff utcPlatform from to =
     (case (isoDay to, isoDay from) of (Some n, Some k) \<Rightarrow> Some (n - k) | _ \<Rightarrow> None)"
  by (simp add: daysDiff_def utcPlatform_def absFloorQuotient_days split: option.splits)

lemma utc_localeCompare: "localeCompare utcPlatform = codePointCompare"
  by (simp add: utcPlatform_def)

lemma santiago_daysDiff:
  "daysDiff santiagoPlatform from to =
     (case (santiagoDay to, santiagoDay from) of
        (Some n, Some k) \<Rightarrow>
          Some (absFloorQuotient
                  (santiagoStart n - santiagoStart k - (santiagoUtcOffset k - santiagoUtcOffset n))
                  1440)
      | _ \<Rightarrow> None)"
  by (simp add: daysDiff_def santiagoPlatform_def)

lemma santiago_localeCompare: "localeCompare santiagoPlatform = codePointCompare"
  by (simp add: santiagoPlatform_def)

lemma santiago_days:
  "santiagoDay ''2025-09-06'' = Some 20337" "santiagoDay ''2025-09-07'' = Some 20338"
  "santiagoDay ''2025-09-08'' = Some 20339" "santiagoDay ''2025-09-09'' = Some 20340"
  by (simp_all add: santiagoDay_def iso_days)

lemma santiago_gaps:
  "daysDiff santiagoPlatform ''2025-09-06'' ''2025-09-07'' = Some 1"
  "daysDiff santiagoPlatform ''2025-09-07'' ''2025-09-08'' = Some 0"
  "daysDiff santiagoPlatform ''2025-09-08'' ''2025-09-07'' = Some 0"
  "daysDiff santiagoPlatform ''2025-09-07'' ''2025-09-09'' = Some 1"
  "daysDiff santiagoPlatform ''2025-09-06'' ''2025-09-08'' = Some 2"
  "daysDiff santiagoPlatform ''2025-09-07'' ''2025-09-07'' = Some 0"
  by (simp_all add: santiago_daysDiff santiago_days santiagoStart_def santiagoUtcOffset_def
      absFloorQuotient_def)

lemma utc_gaps:
  "daysDiff utcPlatform ''2025-09-07'' ''2025-09-08'' = Some 1"
  "daysDiff utcPlatform ''2025-09-08'' ''2025-09-07'' = Some (- 1)"
  "daysDiff utcPlatform ''2025-09-07'' ''2025-09-09'' = Some 2"
  "daysDiff utcPlatform ''2025-09-07'' ''2025-09-07'' = Some 0"
  by (simp_all add: utc_daysDiff iso_days)

lemma stagePairs_eq: "stagePairs = [(IMPRESSION, CLICK), (CLICK, LANDING), (LANDING, LEAD), (LEAD, PURCHASE)]"
  by (simp add: stagePairs_def STAGE_ORDER_def upt_conv_Cons)

lemma ex_cfg: "mergeBreakDetectorConfig exConfig = exCfg"
  by (simp add: mergeBreakDetectorConfig_def exConfig_def DEFAULT_BREAK_DETECTOR_CONFIG_def exCfg_def)

lemma windowStats_zero: "\<forall>dp\<in>set ts. dp_rate dp = 0 \<Longrightarrow> windowStats pf cfg ts d = Inr None"
proof -
  assume z: "\<forall>dp\<in>set ts. dp_rate dp = 0"
  have m: "mean (map dp_rate (baselinePoints pf cfg ts d)) = Inr 0"
    by (rule mean_zero) (use z in \<open>auto simp: baselinePoints_def\<close>)
  obtain sd where sd: "stddev (map dp_rate (baselinePoints pf cfg ts d)) = Inr sd"
    using stddev_total by blast
  obtain cm where cm: "mean (map dp_rate (currentPoints pf cfg ts d)) = Inr cm"
    using mean_total by blast
  show ?thesis by (simp add: windowStats_def Let_def m sd cm)
qed

lemma detectBreaksInSeries_zero:
  assumes "\<forall>dp\<in>set ts. dp_rate dp = 0"
  shows "detectBreaksInSeries pf ts fid from to cfg = Inr []"
proof -
  have "mapE (\<lambda>dp. detectAt pf cfg ts fid from to (dp_date dp)) ts = Inr (map (\<lambda>dp. None) ts)"
    by (rule mapE_map) (simp add: detectAt_def windowStats_zero[OF assms])
  then show ?thesis
    by (simp add: detectBreaksInSeries_def List.map_filter_def)
qed

lemma ws1: "windowStats utcPlatform exCfg exSeries ''2025-01-01'' = Inr None"
  by (simp add: windowStats_def currentPoints_def baselinePoints_def exCfg_def exSeries_def
      utc_daysDiff iso_days)

lemma ws2: "windowStats utcPlatform exCfg exSeries ''2025-01-02'' = Inr (Some ((1/2), 0, (1/10)))"
  by (simp add: windowStats_def currentPoints_def baselinePoints_def exCfg_def exSeries_def
      utc_daysDiff iso_days mean_def stddev_def checkedDivide_def)

lemma ws3: "windowStats utcPlatform exCfg exSeries ''2025-01-03'' = Inr (Some ((1/10), 0, (1/50)))"
  by (simp add: windowStats_def currentPoints_def baselinePoints_def exCfg_def exSeries_def
      utc_daysDiff iso_days mean_def stddev_def checkedDivide_def)

lemma fb2: "flagBreak exCfg ''f'' CLICK LANDING ''2025-01-02'' ((1/2), 0, (1/10)) = Inr (Some (exBreak ''2025-01-02'' (1/2) (1/10)))"
  by (simp add: flagBreak_def exCfg_def exBreak_def classifySeverity_def checkedDivide_def)

lemma fb3: "flagBreak exCfg ''f'' CLICK LANDING ''2025-01-03'' ((1/10), 0, (1/50)) = Inr (Some (exBreak ''2025-01-03'' (1/10) (1/50)))"
  by (simp add: flagBreak_def exCfg_def exBreak_def classifySeverity_def checkedDivide_def)

lemma ex_inSeries: "detectBreaksInSeries utcPlatform exSeries ''f'' CLICK LANDING exCfg
   = Inr [exBreak ''2025-01-02'' (1/2) (1/10), exBreak ''2025-01-03'' (1/10) (1/50)]"
proof -
  have "detectAt utcPlatform exCfg exSeries ''f'' CLICK LANDING ''2025-01-01'' = Inr None"
       "detectAt utcPlatform exCfg exSeries ''f'' CLICK LANDING ''2025-01-02'' = Inr (Some (exBreak ''2025-01-02'' (1/2) (1/10)))"
       "detectAt utcPlatform exCfg exSeries ''f'' CLICK LANDING ''2025-01-03'' = Inr (Some (exBreak ''2025-01-03'' (1/10) (1/50)))"
    by (simp_all add: detectAt_def ws1 ws2 ws3 fb2 fb3)
  then show ?thesis
    by (simp add: detectBreaksInSeries_def List.map_filter_def exSeries_def)
qed

lemma ex_funnelRates: "sortBy (\<lambda>a b. localeCompare utcPlatform (cr_date a) (cr_date b)) (filter (\<lambda>cr. cr_funnelId cr = ''f'') exRates) = exRates"
  by (simp add: sortBy_def exRates_def exDay_def utc_localeCompare codePointCompare_def)

lemma ex_series_main: "extractTimeSeries utcPlatform exRates CLICK LANDING = exSeries"
  by (simp add: extractTimeSeries_def sortBy_def exRates_def exDay_def utc_localeCompare
      codePointCompare_def exSeries_def)

lemma ex_series_other: "(from, to) \<noteq> (CLICK, LANDING) \<Longrightarrow> \<forall>dp\<in>set (extractTimeSeries pf exRates from to). dp_rate dp = 0"
  by (auto simp add: extractTimeSeries_def set_sortBy exRates_def exDay_def)

lemma ex_allBreaks: "allBreaks utcPlatform exRates exCfg
   = Inr [exBreak ''2025-01-02'' (1/2) (1/10), exBreak ''2025-01-03'' (1/10) (1/50)]"
proof -
  have u: "uniqueInOrder (map cr_funnelId exRates) = [''f'']"
    by (simp add: uniqueInOrder_def exRates_def exDay_def)
  show ?thesis
    unfolding allBreaks_def u
    by (simp add: Let_def stagePairs_eq ex_funnelRates ex_series_main ex_inSeries
        detectBreaksInSeries_zero[OF ex_series_other])
qed

lemma exBreak_sel:
  "detectedDate (exBreak d bm cm) = d" "zScore (exBreak d bm cm) = (bm - cm) * 100"
  "groupKey (exBreak d bm cm) = ''f|click|landing''"
  by (simp_all add: exBreak_def groupKey_def)

lemma ex_dedup: "deduplicateConsecutiveBreaks utcPlatform [exBreak ''2025-01-02'' (1/2) (1/10), exBreak ''2025-01-03'' (1/10) (1/50)]
   = Inr [exBreak ''2025-01-02'' (1/2) (1/10)]"
  by (simp add: deduplicateConsecutiveBreaks_def groups_def exBreak_sel dedupGroup_def
      sortBy_def compareDetected_def utc_localeCompare codePointCompare_def utc_daysDiff iso_days)

lemma ex_detect: "detectBreaks utcPlatform exRates exConfig = Inr [exBreak ''2025-01-02'' (1/2) (1/10)]"
  by (simp add: detectBreaks_def ex_cfg ex_allBreaks ex_dedup)

lemma neg_series: "extractTimeSeries utcPlatform negRates CLICK LANDING = negSeries"
  by (simp add: extractTimeSeries_def sortBy_def negRates_def exDay_def utc_localeCompare
      codePointCompare_def negSeries_def)

lemma neg_series_other:
  "(from, to) \<noteq> (CLICK, LANDING) \<Longrightarrow> \<forall>dp\<in>set (extractTimeSeries pf negRates from to). dp_rate dp = 0"
  by (auto simp add: extractTimeSeries_def set_sortBy negRates_def exDay_def)

lemma neg_funnelRates:
  "sortBy (\<lambda>a b. localeCompare utcPlatform (cr_date a) (cr_date b)) (filter (\<lambda>cr. cr_funnelId cr = ''f'') negRates) = negRates"
  by (simp add: sortBy_def negRates_def exDay_def utc_localeCompare codePointCompare_def)

lemma neg_ws1: "windowStats utcPlatform exCfg negSeries ''2025-01-01'' = Inr None"
  by (simp add: windowStats_def currentPoints_def baselinePoints_def exCfg_def negSeries_def
      utc_daysDiff iso_days)

lemma neg_ws2: "windowStats utcPlatform exCfg negSeries ''2025-01-02'' = Inr (Some (- (1 / 2), 0, - (1 / 10)))"
  by (simp add: windowStats_def currentPoints_def baselinePoints_def exCfg_def negSeries_def
      utc_daysDiff iso_days mean_def stddev_def checkedDivide_def)

lemma neg_fb2:
  "flagBreak exCfg ''f'' CLICK LANDING ''2025-01-02'' (- (1 / 2), 0, - (1 / 10))
     = Inr (Some (exBreak ''2025-01-02'' (- (1 / 2)) (- (1 / 10))))"
  by (simp add: flagBreak_def exCfg_def exBreak_def classifySeverity_def checkedDivide_def)

lemma neg_inSeries:
  "detectBreaksInSeries utcPlatform negSeries ''f'' CLICK LANDING exCfg
     = Inr [exBreak ''2025-01-02'' (- (1 / 2)) (- (1 / 10))]"
proof -
  have "detectAt utcPlatform exCfg negSeries ''f'' CLICK LANDING ''2025-01-01'' = Inr None"
       "detectAt utcPlatform exCfg negSeries ''f'' CLICK LANDING ''2025-01-02'' = Inr (Some (exBreak ''2025-01-02'' (- (1 / 2)) (- (1 / 10))))"
    by (simp_all add: detectAt_def neg_ws1 neg_ws2 neg_fb2)
  then show ?thesis
    by (simp add: detectBreaksInSeries_def List.map_filter_def negSeries_def)
qed

lemma neg_allBreaks:
  "allBreaks utcPlatform negRates exCfg = Inr [exBreak ''2025-01-02'' (- (1 / 2)) (- (1 / 10))]"
proof -
  have u: "uniqueInOrder (map cr_funnelId negRates) = [''f'']"
    by (simp add: uniqueInOrder_def negRates_def exDay_def)
  show ?thesis
    unfolding allBreaks_def u
    by (simp add: Let_def stagePairs_eq neg_funnelRates neg_series neg_inSeries
        detectBreaksInSeries_zero[OF neg_series_other])
qed

lemma dedup_single: "deduplicateConsecutiveBreaks pf [b] = Inr [b]"
  by (simp add: deduplicateConsecutiveBreaks_def groups_def dedupGroup_def sortBy_def)

lemma neg_detect:
  "detectBreaks utcPlatform negRates exConfig = Inr [exBreak ''2025-01-02'' (- (1 / 2)) (- (1 / 10))]"
  by (simp add: detectBreaks_def ex_cfg neg_allBreaks dedup_single)

lemma ex_baseline1: "baselinePoints utcPlatform exCfg exSeries ''2025-01-01'' = []"
  by (simp add: baselinePoints_def exCfg_def exSeries_def utc_daysDiff iso_days)


lemma dst_dedup_santiago:
  "deduplicateConsecutiveBreaks santiagoPlatform
     [exBreak ''2025-09-07'' (1 / 2) (1 / 10), exBreak ''2025-09-09'' (1 / 2) (1 / 4)]
   = Inr [exBreak ''2025-09-07'' (1 / 2) (1 / 10)]"
  by (simp add: deduplicateConsecutiveBreaks_def groups_def exBreak_sel dedupGroup_def
      sortBy_def compareDetected_def santiago_localeCompare codePointCompare_def santiago_gaps)

lemma dst_dedup_utc:
  "deduplicateConsecutiveBreaks utcPlatform
     [exBreak ''2025-09-07'' (1 / 2) (1 / 10), exBreak ''2025-09-09'' (1 / 2) (1 / 4)]
   = Inr [exBreak ''2025-09-07'' (1 / 2) (1 / 10), exBreak ''2025-09-09'' (1 / 2) (1 / 4)]"
  by (simp add: deduplicateConsecutiveBreaks_def groups_def exBreak_sel dedupGroup_def
      sortBy_def compareDetected_def utc_localeCompare codePointCompare_def utc_gaps)

lemma locale_build:
  "map snap_funnelId
     (buildSnapshots utcPlatform
        [exEvent ''d'' ''2025-01-01'' CLICK 1, exEvent ''ch'' ''2025-01-01'' CLICK 1])
     = [''ch'', ''d'']"
  "map snap_funnelId
     (buildSnapshots czechPlatform
        [exEvent ''d'' ''2025-01-01'' CLICK 1, exEvent ''ch'' ''2025-01-01'' CLICK 1])
     = [''d'', ''ch'']"
  by (simp_all add: buildSnapshots_def grouped_def snapshotKey_def exEvent_def snapshotOf_def
      sortBy_def compareSnapshots_def utc_localeCompare codePointCompare_def czechPlatform_def
      czechCompare_def)

lemma ex_build:
  "map (\<lambda>s. (snap_funnelId s, snap_date s, map (stageCounts s) STAGE_ORDER))
       (buildSnapshots utcPlatform
          [exEvent ''g'' ''2025-01-01'' CLICK 3, exEvent ''f'' ''2025-01-02'' IMPRESSION 5,
           exEvent ''f'' ''2025-01-01'' CLICK 1, exEvent ''f'' ''2025-01-02'' IMPRESSION 7])
     = [(''f'', ''2025-01-01'', [0, 1, 0, 0, 0]), (''f'', ''2025-01-02'', [12, 0, 0, 0, 0]),
        (''g'', ''2025-01-01'', [0, 3, 0, 0, 0])]"
  by (simp add: buildSnapshots_def grouped_def snapshotKey_def exEvent_def snapshotOf_def sortBy_def
      compareSnapshots_def utc_localeCompare codePointCompare_def STAGE_ORDER_def)

subsection \<open>Snapshots of events whose funnel identifiers and dates hold no separator\<close>

text \<open>
  \<open>buildSnapshots\<close> joins funnel identifier and date with \<open>|\<close> and splits the key again at
  \<open>|\<close>. When neither holds the separator, there is exactly one snapshot for every pair that
  occurs in the events, and the count of a stage is the sum of the counts of the events of the
  pair and the stage; the snapshots are in the order of the string comparison of the process,
  which is the order of (funnelId, date) by code points when that comparison agrees with the
  code points on the funnel identifiers and on the dates of the events.
\<close>

lemma splitOn_no_separator: "sep \<notin> set d \<Longrightarrow> splitOn sep d = [d]"
  by (induction d) auto

lemma splitOn_pair: "sep \<notin> set f \<Longrightarrow> sep \<notin> set d \<Longrightarrow> splitOn sep (f @ sep # d) = [f, d]"
  by (induction f) (auto simp: splitOn_no_separator)

text \<open>Every key splits into at least two pieces, so the destructuring finds a date.\<close>

lemma splitOn_nonempty: "splitOn sep s \<noteq> []"
  by (cases s) (auto split: list.splits)

lemma splitOn_two_pieces: "2 \<le> length (splitOn sep (f @ sep # d))"
proof (induction f)
  case Nil
  have "splitOn sep d \<noteq> []" by (rule splitOn_nonempty)
  then have "1 \<le> length (splitOn sep d)" by (cases "splitOn sep d") simp_all
  then show ?case by simp
next
  case (Cons c f)
  then show ?case by (auto split: list.splits)
qed

lemma snapshotKey_pieces: "2 \<le> length (splitOn (CHR ''|'') (snapshotKey event))"
  using splitOn_two_pieces[of "CHR ''|''" "ev_funnelId event" "ev_date event"]
  by (simp add: snapshotKey_def)

lemma snapshotOf_key:
  assumes "CHR ''|'' \<notin> set f" "CHR ''|'' \<notin> set d"
  shows "snapshotOf (f @ ''|'' @ d, m) =
     \<lparr>snap_date = d, snap_funnelId = f,
      stageCounts = (\<lambda>stage. case m stage of None \<Rightarrow> 0 | Some c \<Rightarrow> c)\<rparr>"
  using splitOn_pair[OF assms] by (simp add: snapshotOf_def)

lemma groupedAdd_keys:
  "map fst (groupedAdd k st n g) = (if k \<in> set (map fst g) then map fst g else map fst g @ [k])"
  by (induction k st n g rule: groupedAdd.induct) auto

lemma groupedAdd_countIn:
  "countIn (groupedAdd k st n g) k' st' = countIn g k' st' + (if k' = k \<and> st' = st then n else 0)"
  by (induction k st n g rule: groupedAdd.induct) (auto simp: countIn_def split: option.splits)

lemma grouped_snoc:
  "grouped (es @ [e]) = groupedAdd (snapshotKey e) (ev_stage e) (ev_count e) (grouped es)"
  by (simp add: grouped_def)

lemma grouped_keys: "map fst (grouped es) = uniqueInOrder (map snapshotKey es)"
proof (induction es rule: rev_induct)
  case Nil
  show ?case by (simp add: grouped_def uniqueInOrder_Nil)
next
  case (snoc e es)
  then show ?case by (simp add: grouped_snoc groupedAdd_keys uniqueInOrder_snoc)
qed

lemma grouped_countIn:
  "countIn (grouped es) k st
     = sum_list (map ev_count (filter (\<lambda>e. snapshotKey e = k \<and> ev_stage e = st) es))"
proof (induction es rule: rev_induct)
  case Nil
  show ?case by (simp add: grouped_def countIn_def)
next
  case (snoc e es)
  then show ?case by (auto simp: grouped_snoc groupedAdd_countIn)
qed

lemma grouped_entry:
  assumes "(k, m) \<in> set (grouped es)"
  shows "k \<in> snapshotKey ` set es"
    and "(case m st of None \<Rightarrow> 0 | Some c \<Rightarrow> c)
           = sum_list (map ev_count (filter (\<lambda>e. snapshotKey e = k \<and> ev_stage e = st) es))"
proof -
  have d: "distinct (map fst (grouped es))"
    unfolding grouped_keys by (rule distinct_uniqueInOrder)
  from assms have "k \<in> set (map fst (grouped es))" by force
  then show "k \<in> snapshotKey ` set es" by (simp add: grouped_keys set_uniqueInOrder)
  from d assms have "map_of (grouped es) k = Some m" by simp
  then have "countIn (grouped es) k st = (case m st of None \<Rightarrow> 0 | Some c \<Rightarrow> c)"
    by (simp add: countIn_def)
  then show "(case m st of None \<Rightarrow> 0 | Some c \<Rightarrow> c)
           = sum_list (map ev_count (filter (\<lambda>e. snapshotKey e = k \<and> ev_stage e = st) es))"
    by (simp add: grouped_countIn)
qed

lemma distinct_map_insertBy:
  "distinct (map f (insertBy cmp x ys)) \<longleftrightarrow> f x \<notin> f ` set ys \<and> distinct (map f ys)"
  by (induction ys) (auto simp: set_insertBy)

lemma distinct_map_sortBy: "distinct (map f (sortBy cmp xs)) \<longleftrightarrow> distinct (map f xs)"
proof (induction xs)
  case Nil
  show ?case by (simp add: sortBy_def)
next
  case (Cons x xs)
  have "sortBy cmp (x # xs) = insertBy cmp x (sortBy cmp xs)" by (simp add: sortBy_def)
  with Cons show ?case by (simp add: distinct_map_insertBy set_sortBy)
qed

lemma snapshotKey_eq_iff:
  assumes "CHR ''|'' \<notin> set (ev_date a)" "CHR ''|'' \<notin> set (ev_date b)"
  shows "snapshotKey a = snapshotKey b \<longleftrightarrow> ev_funnelId a = ev_funnelId b \<and> ev_date a = ev_date b"
  using split_at_last_separator[OF assms, of "ev_funnelId a" "ev_funnelId b"]
  by (auto simp: snapshotKey_def)

lemma buildSnapshots_Nil: "buildSnapshots pf [] = []"
  by (simp add: buildSnapshots_def grouped_def sortBy_def)

lemma snapshots_of_grouped:
  assumes sepfree: "\<forall>e\<in>set events. CHR ''|'' \<notin> set (ev_funnelId e) \<and> CHR ''|'' \<notin> set (ev_date e)"
    and e: "e \<in> set events"
    and m: "(snapshotKey e, m) \<in> set (grouped events)"
  shows "snap_funnelId (snapshotOf (snapshotKey e, m)) = ev_funnelId e"
    "snap_date (snapshotOf (snapshotKey e, m)) = ev_date e"
    "stageCounts (snapshotOf (snapshotKey e, m)) st
       = sum_list (map ev_count
           (filter (\<lambda>x. ev_funnelId x = ev_funnelId e \<and> ev_date x = ev_date e \<and> ev_stage x = st) events))"
proof -
  have k: "snapshotKey e = ev_funnelId e @ ''|'' @ ev_date e" by (simp add: snapshotKey_def)
  have s: "snapshotOf (snapshotKey e, m) =
     \<lparr>snap_date = ev_date e, snap_funnelId = ev_funnelId e,
      stageCounts = (\<lambda>stage. case m stage of None \<Rightarrow> 0 | Some c \<Rightarrow> c)\<rparr>"
    unfolding k using sepfree e by (intro snapshotOf_key) auto
  show "snap_funnelId (snapshotOf (snapshotKey e, m)) = ev_funnelId e"
    "snap_date (snapshotOf (snapshotKey e, m)) = ev_date e"
    by (simp_all add: s)
  have "filter (\<lambda>x. snapshotKey x = snapshotKey e \<and> ev_stage x = st) events
      = filter (\<lambda>x. ev_funnelId x = ev_funnelId e \<and> ev_date x = ev_date e \<and> ev_stage x = st) events"
    using sepfree e by (intro filter_cong refl) (auto simp: snapshotKey_eq_iff)
  with grouped_entry(2)[OF m, of st]
  show "stageCounts (snapshotOf (snapshotKey e, m)) st
       = sum_list (map ev_count
           (filter (\<lambda>x. ev_funnelId x = ev_funnelId e \<and> ev_date x = ev_date e \<and> ev_stage x = st) events))"
    by (simp add: s)
qed

lemma buildSnapshots_without_separator:
  assumes sepfree: "\<forall>e\<in>set events. CHR ''|'' \<notin> set (ev_funnelId e) \<and> CHR ''|'' \<notin> set (ev_date e)"
  shows "distinct (map (\<lambda>s. (snap_funnelId s, snap_date s)) (buildSnapshots pf events))"
    and "set (map (\<lambda>s. (snap_funnelId s, snap_date s)) (buildSnapshots pf events))
           = (\<lambda>e. (ev_funnelId e, ev_date e)) ` set events"
    and "\<forall>s\<in>set (buildSnapshots pf events). \<forall>st.
           stageCounts s st
             = sum_list (map ev_count
                 (filter (\<lambda>e. ev_funnelId e = snap_funnelId s \<and> ev_date e = snap_date s \<and> ev_stage e = st)
                    events))"
proof -
  let ?pair = "\<lambda>s. (snap_funnelId s, snap_date s)"
  let ?g = "grouped events"
  have entry: "\<exists>e\<in>set events. k = snapshotKey e" if "(k, m) \<in> set ?g" for k m
    using grouped_entry(1)[OF that] by auto
  have pair_of: "?pair (snapshotOf (k, m)) = (ev_funnelId e, ev_date e)"
    if "(k, m) \<in> set ?g" "e \<in> set events" "k = snapshotKey e" for k m e
    using snapshots_of_grouped(1,2)[OF sepfree that(2)] that(1,3) by simp
  have inj: "inj_on (\<lambda>km. ?pair (snapshotOf km)) (set ?g)"
  proof (rule inj_onI)
    fix x y assume x: "x \<in> set ?g" and y: "y \<in> set ?g"
      and eq: "?pair (snapshotOf x) = ?pair (snapshotOf y)"
    obtain k m where xk: "x = (k, m)" by (cases x)
    obtain k' m' where yk: "y = (k', m')" by (cases y)
    from entry x xk obtain e where e: "e \<in> set events" "k = snapshotKey e" by blast
    from entry y yk obtain e' where e': "e' \<in> set events" "k' = snapshotKey e'" by blast
    from eq pair_of[OF _ e] pair_of[OF _ e'] x y xk yk
    have "ev_funnelId e = ev_funnelId e'" "ev_date e = ev_date e'" by auto
    then have "k = k'" using e e' by (simp add: snapshotKey_def)
    moreover have "distinct (map fst ?g)"
      unfolding grouped_keys by (rule distinct_uniqueInOrder)
    ultimately show "x = y" using x y xk yk
      by (metis eq_key_imp_eq_value)
  qed
  have d: "distinct ?g"
    using distinct_uniqueInOrder[of "map snapshotKey events"] grouped_keys[of events]
    by (metis distinct_map)
  have "distinct (map (\<lambda>km. ?pair (snapshotOf km)) ?g)"
    using d inj by (simp add: distinct_map)
  then have "distinct (map ?pair (map snapshotOf ?g))" by (simp add: comp_def)
  then show "distinct (map ?pair (buildSnapshots pf events))"
    unfolding buildSnapshots_def by (simp only: distinct_map_sortBy)
  have "set (map ?pair (map snapshotOf ?g)) = (\<lambda>e. (ev_funnelId e, ev_date e)) ` set events"
  proof (intro set_eqI iffI)
    fix p assume "p \<in> set (map ?pair (map snapshotOf ?g))"
    then obtain k m where km: "(k, m) \<in> set ?g" "p = ?pair (snapshotOf (k, m))" by auto
    from entry[OF km(1)] obtain e where e: "e \<in> set events" "k = snapshotKey e" by blast
    from pair_of[OF km(1) e] km(2) e(1) show "p \<in> (\<lambda>e. (ev_funnelId e, ev_date e)) ` set events"
      by auto
  next
    fix p assume "p \<in> (\<lambda>e. (ev_funnelId e, ev_date e)) ` set events"
    then obtain e where e: "e \<in> set events" "p = (ev_funnelId e, ev_date e)" by auto
    then have "snapshotKey e \<in> set (map fst ?g)"
      by (simp add: grouped_keys set_uniqueInOrder)
    then obtain m where m: "(snapshotKey e, m) \<in> set ?g" by auto
    from pair_of[OF m e(1) refl] e(2) m show "p \<in> set (map ?pair (map snapshotOf ?g))"
      by force
  qed
  then show "set (map ?pair (buildSnapshots pf events)) = (\<lambda>e. (ev_funnelId e, ev_date e)) ` set events"
    unfolding buildSnapshots_def by (simp add: image_image set_sortBy)
  show "\<forall>s\<in>set (buildSnapshots pf events). \<forall>st.
           stageCounts s st
             = sum_list (map ev_count
                 (filter (\<lambda>e. ev_funnelId e = snap_funnelId s \<and> ev_date e = snap_date s \<and> ev_stage e = st)
                    events))"
  proof (intro ballI allI)
    fix s st assume "s \<in> set (buildSnapshots pf events)"
    then obtain k m where km: "(k, m) \<in> set ?g" "s = snapshotOf (k, m)"
      unfolding buildSnapshots_def by (auto simp: set_sortBy)
    from entry[OF km(1)] obtain e where e: "e \<in> set events" "k = snapshotKey e" by blast
    from km e have m: "(snapshotKey e, m) \<in> set ?g" and s: "s = snapshotOf (snapshotKey e, m)"
      by simp_all
    show "stageCounts s st
             = sum_list (map ev_count
                 (filter (\<lambda>e. ev_funnelId e = snap_funnelId s \<and> ev_date e = snap_date s \<and> ev_stage e = st)
                    events))"
      unfolding s snapshots_of_grouped[OF sepfree e(1) m] ..
  qed
qed

lemma buildSnapshots_sorted:
  assumes sepfree: "\<forall>e\<in>set events. CHR ''|'' \<notin> set (ev_funnelId e) \<and> CHR ''|'' \<notin> set (ev_date e)"
    and ids: "collatesByCodePoint pf (map ev_funnelId events)"
    and dates: "collatesByCodePoint pf (map ev_date events)"
  shows "sorted (map (\<lambda>s. (snap_funnelId s, snap_date s)) (buildSnapshots pf events))"
proof -
  let ?pair = "\<lambda>s. (snap_funnelId s, snap_date s)"
  let ?xs = "map snapshotOf (grouped events)"
  have mem: "snap_funnelId x \<in> ev_funnelId ` set events \<and> snap_date x \<in> ev_date ` set events"
    if "x \<in> set ?xs" for x
  proof -
    from that have "x \<in> set (buildSnapshots pf events)"
      by (simp add: buildSnapshots_def set_sortBy)
    then have "?pair x \<in> (\<lambda>e. (ev_funnelId e, ev_date e)) ` set events"
      using buildSnapshots_without_separator(2)[OF sepfree, of pf] by auto
    then show ?thesis by auto
  qed
  have "buildSnapshots pf events = sort_key ?pair ?xs"
    unfolding buildSnapshots_def
  proof (rule sortBy_sort_key)
    fix x y assume "x \<in> set ?xs" "y \<in> set ?xs"
    from mem[OF this(1)] mem[OF this(2)] ids dates
    have "(localeCompare pf (snap_funnelId x) (snap_funnelId y) \<le> 0) = (snap_funnelId x \<le> snap_funnelId y)"
      "(localeCompare pf (snap_date x) (snap_date y) \<le> 0) = (snap_date x \<le> snap_date y)"
      unfolding collatesByCodePoint_iff by auto
    then show "compareSnapshots pf x y \<le> 0 \<longleftrightarrow> ?pair x \<le> ?pair y"
      by (auto simp: compareSnapshots_def)
  qed
  then show ?thesis by (simp only: sorted_sort_key)
qed

subsection \<open>What the analyzer puts into a diagnosis\<close>

lemma sortBy_confidence:
  "sortBy (\<lambda>x y. confidence y - confidence x) cs = sort_key (\<lambda>c. - confidence c) cs"
  by (rule sortBy_sort_key) simp

lemma calcSeverityScore_value: "calcSeverityScore sev = Inr ((min 5 (max 1 sev) - 1) / 4)"
  by (simp add: calcSeverityScore_def checkedDivide_def)

lemma isCandidateChange_iff:
  "isCandidateChange pf b cfg change \<longleftrightarrow>
     (ch_funnelId change = funnelId b \<or> ch_funnelId change = ''*'')
     \<and> (\<exists>gap. daysDiff pf (ch_date change) (detectedDate b) = Some gap
            \<and> 0 \<le> gap \<and> real_of_int gap \<le> maxTemporalDistanceDays cfg)"
  by (auto simp: isCandidateChange_def Let_def split: option.splits)

lemma calcTemporalScore_eligible:
  assumes "daysDiff pf chDate breakDate = Some gap" "0 \<le> gap" "real_of_int gap \<le> maxDays"
  shows "calcTemporalScore pf chDate breakDate maxDays = Inr (exp (- 0.5 * real_of_int gap))"
  using assms by (simp add: calcTemporalScore_def)

lemma scoreCandidate_Inr:
  assumes "scoreCandidate pf change b cfg = Inr c"
  obtains tScore where
    "calcTemporalScore pf (ch_date change) (detectedDate b) (maxTemporalDistanceDays cfg) = Inr tScore"
    "c = \<lparr>changeId = (case ch_id change of None \<Rightarrow> [] | Some i \<Rightarrow> i),
          changeDescription = description change,
          changeCategory = category change,
          changeDate = ch_date change,
          changeSeverity = ch_severity change,
          confidence = min 1 (max 0
             (tScore * temporalWeight cfg
              + calcCategoryRelevance (category change) (fromStage b) (toStage b) * categoryWeight cfg
              + (min 5 (max 1 (ch_severity change)) - 1) / 4 * severityWeight cfg
              + calcStageMatchBonus change b * stageMatchWeight cfg)),
          scoreBreakdown =
            \<lparr>temporalScore = tScore,
             categoryRelevanceScore = calcCategoryRelevance (category change) (fromStage b) (toStage b),
             severityScore = (min 5 (max 1 (ch_severity change)) - 1) / 4,
             stageMatchBonus = calcStageMatchBonus change b\<rparr>\<rparr>"
proof -
  from assms obtain tScore where
    t: "calcTemporalScore pf (ch_date change) (detectedDate b) (maxTemporalDistanceDays cfg) = Inr tScore"
    by (cases "calcTemporalScore pf (ch_date change) (detectedDate b) (maxTemporalDistanceDays cfg)")
       (simp_all add: scoreCandidate_def)
  from assms show ?thesis
    by (intro that[OF t]) (simp add: scoreCandidate_def t calcSeverityScore_value Let_def)
qed

lemma scoreCandidate_total:
  assumes "isCandidateChange pf b cfg change"
  shows "\<exists>c. scoreCandidate pf change b cfg = Inr c"
proof -
  from assms obtain gap where g: "daysDiff pf (ch_date change) (detectedDate b) = Some gap"
    "0 \<le> gap" "real_of_int gap \<le> maxTemporalDistanceDays cfg"
    unfolding isCandidateChange_iff by blast
  show ?thesis
    by (simp add: scoreCandidate_def calcTemporalScore_eligible[OF g] calcSeverityScore_value Let_def)
qed


lemma rankCauses_result:
  obtains scored where
    "mapE (\<lambda>change. scoreCandidate pf change b cfg) (filter (isCandidateChange pf b cfg) changes)
       = Inr scored"
    "rankCauses pf b changes cfg
       = Inr (sort_key (\<lambda>c. - confidence c)
                (filter (\<lambda>c. minConfidenceThreshold cfg \<le> confidence c) scored))"
proof -
  have "\<exists>scored. mapE (\<lambda>change. scoreCandidate pf change b cfg)
                   (filter (isCandidateChange pf b cfg) changes) = Inr scored"
    by (rule mapE_total) (simp add: scoreCandidate_total)
  then obtain scored where
    s: "mapE (\<lambda>change. scoreCandidate pf change b cfg) (filter (isCandidateChange pf b cfg) changes)
          = Inr scored"
    by blast
  then have "rankCauses pf b changes cfg
       = Inr (sort_key (\<lambda>c. - confidence c)
                (filter (\<lambda>c. minConfidenceThreshold cfg \<le> confidence c) scored))"
    by (simp add: rankCauses_def Let_def sortBy_confidence)
  with s show ?thesis by (rule that)
qed

lemma rankCauses_total: "\<exists>cs. rankCauses pf b changes cfg = Inr cs"
  by (rule rankCauses_result[of pf b cfg changes]) blast

lemma rankCauses_origin:
  assumes "rankCauses pf b changes cfg = Inr cs" "c \<in> set cs"
  obtains change where "change \<in> set changes" "isCandidateChange pf b cfg change"
    "scoreCandidate pf change b cfg = Inr c" "minConfidenceThreshold cfg \<le> confidence c"
proof -
  obtain scored where
    s: "mapE (\<lambda>change. scoreCandidate pf change b cfg) (filter (isCandidateChange pf b cfg) changes)
          = Inr scored"
    and r: "rankCauses pf b changes cfg
       = Inr (sort_key (\<lambda>c. - confidence c)
                (filter (\<lambda>c. minConfidenceThreshold cfg \<le> confidence c) scored))"
    by (rule rankCauses_result)
  from assms r have c: "c \<in> set scored" "minConfidenceThreshold cfg \<le> confidence c" by auto
  from mapE_mem[OF s c(1)] obtain change where
    "change \<in> set (filter (isCandidateChange pf b cfg) changes)"
    "scoreCandidate pf change b cfg = Inr c" by blast
  with c(2) show ?thesis by (intro that[of change]) simp_all
qed


lemma rankCauses_sorted:
  assumes "rankCauses pf b changes cfg = Inr cs"
  shows "sorted (map (\<lambda>c. - confidence c) cs)"
proof -
  obtain scored where
    "rankCauses pf b changes cfg
       = Inr (sort_key (\<lambda>c. - confidence c)
                (filter (\<lambda>c. minConfidenceThreshold cfg \<le> confidence c) scored))"
    by (rule rankCauses_result)
  with assms show ?thesis by (auto simp: sorted_sort_key)
qed

lemma generateSummary_total:
  "\<exists>text. generateSummary toFixed b cs (determineStatus cs) = Inr text"
  by (cases cs) (simp_all add: generateSummary_def determineStatus_def Let_def)

lemma diagnoseBreak_result:
  "\<exists>cs text. rankCauses pf b changes cfg = Inr cs
     \<and> generateSummary toFixed b cs (determineStatus cs) = Inr text
     \<and> (\<forall>clock k. diagnoseBreak pf toFixed clock k b changes cfg =
         Inr \<lparr>generatedAt = clock k, brk = b, causes = cs,
              diagnosisStatus = determineStatus cs, summary = text\<rparr>)"
proof -
  obtain cs where cs: "rankCauses pf b changes cfg = Inr cs" using rankCauses_total by blast
  obtain smry where t: "generateSummary toFixed b cs (determineStatus cs) = Inr smry"
    using generateSummary_total by blast
  show ?thesis
    by (intro exI[of _ cs] exI[of _ smry]) (simp add: diagnoseBreak_def cs t Let_def)
qed

text \<open>What a run of the analyzer returns: a list that does not depend on the clock, stamped with the clock.\<close>

lemma diagnoseFrom_result:
  "\<exists>ds. length ds = length bs
     \<and> (\<forall>i<length bs. brk (ds ! i) = bs ! i
            \<and> rankCauses pf (bs ! i) changes cfg = Inr (causes (ds ! i))
            \<and> diagnosisStatus (ds ! i) = determineStatus (causes (ds ! i))
            \<and> generateSummary toFixed (bs ! i) (causes (ds ! i)) (diagnosisStatus (ds ! i))
                 = Inr (summary (ds ! i)))
     \<and> (\<forall>clock k. diagnoseFrom pf toFixed clock k bs changes cfg
            = Inr (map (\<lambda>(i, d). d\<lparr>generatedAt := clock (k + i)\<rparr>) (zip [0 ..< length ds] ds)))"
proof (induction bs)
  case Nil
  show ?case by simp
next
  case (Cons b bs)
  then obtain ds where ds: "length ds = length bs"
    "\<forall>i<length bs. brk (ds ! i) = bs ! i
            \<and> rankCauses pf (bs ! i) changes cfg = Inr (causes (ds ! i))
            \<and> diagnosisStatus (ds ! i) = determineStatus (causes (ds ! i))
            \<and> generateSummary toFixed (bs ! i) (causes (ds ! i)) (diagnosisStatus (ds ! i))
                 = Inr (summary (ds ! i))"
    "\<And>clock k. diagnoseFrom pf toFixed clock k bs changes cfg
            = Inr (map (\<lambda>(i, d). d\<lparr>generatedAt := clock (k + i)\<rparr>) (zip [0 ..< length ds] ds))"
    by blast
  obtain cs smry where cs: "rankCauses pf b changes cfg = Inr cs"
    and t: "generateSummary toFixed b cs (determineStatus cs) = Inr smry"
    and d: "\<And>clock k. diagnoseBreak pf toFixed clock k b changes cfg =
         Inr \<lparr>generatedAt = clock k, brk = b, causes = cs,
              diagnosisStatus = determineStatus cs, summary = smry\<rparr>"
    using diagnoseBreak_result[of pf b changes cfg toFixed] by blast
  let ?d = "\<lparr>generatedAt = [], brk = b, causes = cs,
              diagnosisStatus = determineStatus cs, summary = smry\<rparr>"
  have z: "zip [0 ..< Suc (length ds)] (?d # ds) = (0, ?d) # map (\<lambda>(i, d). (Suc i, d)) (zip [0 ..< length ds] ds)"
    by (simp add: upt_conv_Cons del: upt_Suc) (simp add: map_Suc_upt[symmetric] zip_map1 del: upt_Suc)
  have "length (?d # ds) = length (b # bs)" using ds(1) by simp
  moreover have "\<forall>i<length (b # bs). brk ((?d # ds) ! i) = (b # bs) ! i
            \<and> rankCauses pf ((b # bs) ! i) changes cfg = Inr (causes ((?d # ds) ! i))
            \<and> diagnosisStatus ((?d # ds) ! i) = determineStatus (causes ((?d # ds) ! i))
            \<and> generateSummary toFixed ((b # bs) ! i) (causes ((?d # ds) ! i))
                 (diagnosisStatus ((?d # ds) ! i)) = Inr (summary ((?d # ds) ! i))"
    using ds(2) t cs by (auto simp: nth_Cons split: nat.splits)
  moreover have "\<forall>clock k. diagnoseFrom pf toFixed clock k (b # bs) changes cfg
            = Inr (map (\<lambda>(i, d). d\<lparr>generatedAt := clock (k + i)\<rparr>) (zip [0 ..< length (?d # ds)] (?d # ds)))"
    by (simp add: d ds(3) z case_prod_unfold comp_def del: upt_Suc)
  ultimately show ?case by blast
qed

lemma analyzeCauses_diagnoses:
  "\<exists>ds. analyzeCauses pf toFixed clock breaks changes config = Inr ds \<and> length ds = length breaks
     \<and> (\<forall>i<length breaks.
            generatedAt (ds ! i) = clock i
          \<and> brk (ds ! i) = breaks ! i
          \<and> rankCauses pf (breaks ! i) changes (mergeCauseAnalyzerConfig config) = Inr (causes (ds ! i))
          \<and> diagnosisStatus (ds ! i) = determineStatus (causes (ds ! i))
          \<and> generateSummary toFixed (breaks ! i) (causes (ds ! i)) (diagnosisStatus (ds ! i))
               = Inr (summary (ds ! i)))"
proof -
  let ?cfg = "mergeCauseAnalyzerConfig config"
  obtain ds where ds: "length ds = length breaks"
    "\<forall>i<length breaks. brk (ds ! i) = breaks ! i
            \<and> rankCauses pf (breaks ! i) changes ?cfg = Inr (causes (ds ! i))
            \<and> diagnosisStatus (ds ! i) = determineStatus (causes (ds ! i))
            \<and> generateSummary toFixed (breaks ! i) (causes (ds ! i)) (diagnosisStatus (ds ! i))
                 = Inr (summary (ds ! i))"
    "\<And>clock k. diagnoseFrom pf toFixed clock k breaks changes ?cfg
            = Inr (map (\<lambda>(i, d). d\<lparr>generatedAt := clock (k + i)\<rparr>) (zip [0 ..< length ds] ds))"
    using diagnoseFrom_result[of breaks pf changes ?cfg toFixed] by blast
  let ?ds = "map (\<lambda>(i, d). d\<lparr>generatedAt := clock (0 + i)\<rparr>) (zip [0 ..< length ds] ds)"
  have "analyzeCauses pf toFixed clock breaks changes config = Inr ?ds"
    by (simp add: analyzeCauses_def ds(3))
  moreover have "length ?ds = length breaks" using ds(1) by simp
  moreover have "generatedAt (?ds ! i) = clock i
          \<and> brk (?ds ! i) = breaks ! i
          \<and> rankCauses pf (breaks ! i) changes ?cfg = Inr (causes (?ds ! i))
          \<and> diagnosisStatus (?ds ! i) = determineStatus (causes (?ds ! i))
          \<and> generateSummary toFixed (breaks ! i) (causes (?ds ! i)) (diagnosisStatus (?ds ! i))
               = Inr (summary (?ds ! i))" if "i < length breaks" for i
  proof -
    have n: "?ds ! i = (ds ! i)\<lparr>generatedAt := clock i\<rparr>"
      using that ds(1) by simp
    from ds(2) that have "brk (ds ! i) = breaks ! i
            \<and> rankCauses pf (breaks ! i) changes ?cfg = Inr (causes (ds ! i))
            \<and> diagnosisStatus (ds ! i) = determineStatus (causes (ds ! i))
            \<and> generateSummary toFixed (breaks ! i) (causes (ds ! i)) (diagnosisStatus (ds ! i))
                 = Inr (summary (ds ! i))"
      by blast
    then show ?thesis unfolding n by auto
  qed
  ultimately show ?thesis by blast
qed

lemma sorted_desc_hd:
  assumes "sorted (map (\<lambda>c. - confidence c) cs)" and "c \<in> set cs"
  shows "confidence c \<le> confidence (hd cs)"
proof (cases cs)
  case Nil
  with assms(2) show ?thesis by simp
next
  case (Cons x xs)
  with assms show ?thesis by auto
qed



lemma calcCategoryRelevance_range: "0 \<le> calcCategoryRelevance cat fr t \<and> calcCategoryRelevance cat fr t \<le> 1"
  by (cases cat; cases fr; cases t) (simp_all add: calcCategoryRelevance_def)

subsection \<open>The example runs of the analyzer\<close>

lemma ex_merge: "mergeCauseAnalyzerConfig noOverrides = DEFAULT_CAUSE_ANALYZER_CONFIG"
  by (simp add: mergeCauseAnalyzerConfig_def noOverrides_def)

lemma ex_eligible:
  "\<not> isCandidateChange utcPlatform (exBreak ''2025-01-02'' bm cm) DEFAULT_CAUSE_ANALYZER_CONFIG (exChange desc ''2025-01-03'' ''f'')"
  "\<not> isCandidateChange utcPlatform (exBreak ''2025-01-02'' bm cm) DEFAULT_CAUSE_ANALYZER_CONFIG (exChange desc ''2025-01-02'' ''g'')"
  "isCandidateChange utcPlatform (exBreak ''2025-01-02'' bm cm) DEFAULT_CAUSE_ANALYZER_CONFIG (exChange desc ''2025-01-02'' ''f'')"
  "isCandidateChange utcPlatform (exBreak ''2025-01-02'' bm cm) DEFAULT_CAUSE_ANALYZER_CONFIG (exChange desc ''2025-01-02'' ''*'')"
  "\<not> isCandidateChange utcPlatform (exBreak ''2025-01-02'' bm cm) DEFAULT_CAUSE_ANALYZER_CONFIG (exChange desc ''2024-12-01'' ''f'')"
  by (simp_all add: isCandidateChange_def exBreak_def exChange_def DEFAULT_CAUSE_ANALYZER_CONFIG_def
      utc_daysDiff iso_days)

lemma ex_score:
  "scoreCandidate utcPlatform (exChange desc ''2025-01-02'' fid) (exBreak ''2025-01-02'' bm cm)
       DEFAULT_CAUSE_ANALYZER_CONFIG
     = Inr (exCandidate desc)"
  by (simp add: scoreCandidate_def exChange_def exBreak_def DEFAULT_CAUSE_ANALYZER_CONFIG_def
      calcTemporalScore_def utc_daysDiff iso_days calcCategoryRelevance_def calcSeverityScore_value
      calcStageMatchBonus_def exCandidate_def)

lemma ex_rank:
  "rankCauses utcPlatform (exBreak ''2025-01-02'' bm cm) exChanges DEFAULT_CAUSE_ANALYZER_CONFIG
     = Inr [exCandidate ''site change'', exCandidate ''global change'']"
proof -
  have c: "confidence (exCandidate desc) = 21 / 25" for desc by (simp add: exCandidate_def)
  show ?thesis
    by (simp add: rankCauses_def exChanges_def ex_eligible ex_score)
       (simp add: sortBy_def c DEFAULT_CAUSE_ANALYZER_CONFIG_def)
qed

lemma toUpperCase_severityName:
  "toUpperCase (severityName s) =
     (case s of WARNING \<Rightarrow> ''WARNING'' | SIGNIFICANT \<Rightarrow> ''SIGNIFICANT'' | CRITICAL \<Rightarrow> ''CRITICAL'')"
  by (cases s) (simp_all add: toUpperCase_def char_of_def bit_0 bit_Suc)

lemmas toUpperCase_critical = toUpperCase_severityName[of CRITICAL, simplified]

lemma ex_summary:
  "generateSummary exToFixed (exBreak ''2025-01-02'' (1 / 2) (1 / 10))
     [exCandidate ''site change'', exCandidate ''global change''] IDENTIFIED
   = Inr (summary (exDiagnosis t))"
  by (simp add: generateSummary_def exBreak_def exCandidate_def exToFixed_def
      toUpperCase_critical exDiagnosis_def)

lemma ex_analyze:
  "analyzeCauses utcPlatform exToFixed (exClock t) [exBreak ''2025-01-02'' (1 / 2) (1 / 10)]
       exChanges noOverrides
     = Inr [exDiagnosis t]"
proof -
  have s: "determineStatus [exCandidate ''site change'', exCandidate ''global change''] = IDENTIFIED"
    by (simp add: determineStatus_def exCandidate_def)
  show ?thesis
    by (simp add: analyzeCauses_def ex_merge diagnoseBreak_def ex_rank s ex_summary[of t])
       (simp add: exDiagnosis_def exClock_def)
qed

lemma ex_analyze_no_changes:
  "analyzeCauses pf exToFixed (exClock t) [exBreak ''2025-01-02'' (1 / 2) (1 / 10)] [] noOverrides
     = Inr [\<lparr>generatedAt = t, brk = exBreak ''2025-01-02'' (1 / 2) (1 / 10),
             causes = [], diagnosisStatus = UNKNOWN,
             summary = ''[CRITICAL] 80.0% conversion drop detected in '' @ dquote @ ''f'' @ dquote
                @ '' at click -> landing on 2025-01-02. No candidate causes found within the analysis window.''\<rparr>]"
  by (simp add: analyzeCauses_def diagnoseBreak_def rankCauses_def sortBy_def determineStatus_def
      generateSummary_def exClock_def)
     (simp add: exBreak_def exToFixed_def toUpperCase_critical)

text \<open>The change of the day after the break, in the two environments.\<close>

lemma dst_eligible_santiago:
  "isCandidateChange santiagoPlatform (exBreak ''2025-09-07'' bm cm) DEFAULT_CAUSE_ANALYZER_CONFIG
     (exChange desc ''2025-09-08'' ''f'')"
  by (simp add: isCandidateChange_def exBreak_def exChange_def DEFAULT_CAUSE_ANALYZER_CONFIG_def
      santiago_gaps)

lemma dst_eligible_utc:
  "\<not> isCandidateChange utcPlatform (exBreak ''2025-09-07'' bm cm) DEFAULT_CAUSE_ANALYZER_CONFIG
     (exChange desc ''2025-09-08'' ''f'')"
  by (simp add: isCandidateChange_def exBreak_def exChange_def DEFAULT_CAUSE_ANALYZER_CONFIG_def
      utc_gaps)

lemma dst_score:
  "scoreCandidate santiagoPlatform (exChange ''next day'' ''2025-09-08'' ''f'')
       (exBreak ''2025-09-07'' bm cm) DEFAULT_CAUSE_ANALYZER_CONFIG
     = Inr dstCandidate"
  by (simp add: scoreCandidate_def exChange_def exBreak_def DEFAULT_CAUSE_ANALYZER_CONFIG_def
      calcTemporalScore_def santiago_gaps calcCategoryRelevance_def calcSeverityScore_value
      calcStageMatchBonus_def dstCandidate_def)

lemma dst_rank_santiago:
  "rankCauses santiagoPlatform (exBreak ''2025-09-07'' bm cm) dstChanges DEFAULT_CAUSE_ANALYZER_CONFIG
     = Inr [dstCandidate]"
  by (simp add: rankCauses_def dstChanges_def dst_eligible_santiago dst_score)
     (simp add: sortBy_def dstCandidate_def DEFAULT_CAUSE_ANALYZER_CONFIG_def)

lemma dst_rank_utc:
  "rankCauses utcPlatform (exBreak ''2025-09-07'' bm cm) dstChanges DEFAULT_CAUSE_ANALYZER_CONFIG
     = Inr []"
  by (simp add: rankCauses_def dstChanges_def dst_eligible_utc sortBy_def)

lemma dst_analyze_santiago:
  "analyzeCauses santiagoPlatform exToFixed (exClock t) [exBreak ''2025-09-07'' (1 / 2) (1 / 10)]
       dstChanges noOverrides
     = Inr [dstDiagnosis t]"
proof -
  have s: "determineStatus [dstCandidate] = IDENTIFIED"
    by (simp add: determineStatus_def dstCandidate_def)
  have g: "generateSummary exToFixed (exBreak ''2025-09-07'' (1 / 2) (1 / 10)) [dstCandidate] IDENTIFIED
             = Inr (summary (dstDiagnosis t))"
    by (simp add: generateSummary_def exBreak_def dstCandidate_def exToFixed_def
        toUpperCase_critical dstDiagnosis_def)
  show ?thesis
    by (simp add: analyzeCauses_def ex_merge diagnoseBreak_def dst_rank_santiago s g)
       (simp add: dstDiagnosis_def exClock_def)
qed

lemma dst_analyze_utc:
  "analyzeCauses utcPlatform exToFixed (exClock t) [exBreak ''2025-09-07'' (1 / 2) (1 / 10)]
       dstChanges noOverrides
     = Inr [dstNoCause t]"
proof -
  have g: "generateSummary exToFixed (exBreak ''2025-09-07'' (1 / 2) (1 / 10)) [] UNKNOWN
             = Inr (summary (dstNoCause t))"
    by (simp add: generateSummary_def exBreak_def exToFixed_def toUpperCase_critical dstNoCause_def)
  show ?thesis
    by (simp add: analyzeCauses_def ex_merge diagnoseBreak_def dst_rank_utc determineStatus_def g)
       (simp add: dstNoCause_def exClock_def)
qed

subsection \<open>C1: emitted breaks meet both thresholds\<close>

text \<open>
  C1. For every list of conversion-rate series, every partial configuration and every process
  environment, \<open>detectBreaks\<close> returns a list of breaks, and every break in it has a relative
  drop of at least \<open>minRelativeDrop\<close> and a z-score of absolute value at least \<open>minZScore\<close>,
  both read from the configuration merged onto the defaults: the value given, and 0.15 and 1.5
  when none is given.
\<close>

theorem emitted_breaks_meet_thresholds:
  "\<exists>breaks. detectBreaks pf conversionRates config = Inr breaks
     \<and> (\<forall>b\<in>set breaks.
           relativeDrop b \<ge> minRelativeDrop (mergeBreakDetectorConfig config)
         \<and> \<bar>zScore b\<bar> \<ge> minZScore (mergeBreakDetectorConfig config))
     \<and> minRelativeDrop (mergeBreakDetectorConfig config)
           = (case opt_minRelativeDrop config of None \<Rightarrow> 0.15 | Some v \<Rightarrow> v)
     \<and> minZScore (mergeBreakDetectorConfig config)
           = (case opt_minZScore config of None \<Rightarrow> 1.5 | Some v \<Rightarrow> v)"
proof -
  obtain raw breaks where raw: "allBreaks pf conversionRates (mergeBreakDetectorConfig config) = Inr raw"
    and r: "detectBreaks pf conversionRates config = Inr breaks"
    and s: "set breaks \<subseteq> set raw"
    using detectBreaks_result by blast
  have "relativeDrop b \<ge> minRelativeDrop (mergeBreakDetectorConfig config)
         \<and> \<bar>zScore b\<bar> \<ge> minZScore (mergeBreakDetectorConfig config)" if "b \<in> set breaks" for b
  proof -
    from that s have "b \<in> set raw" by blast
    with raw obtain fid fr t d stats
      where "flagBreak (mergeBreakDetectorConfig config) fid fr t d stats = Inr (Some b)"
      by (rule allBreaks_origin)
    then show ?thesis by (cases stats) (auto dest: flagBreak_fields(11,12))
  qed
  moreover have "minRelativeDrop (mergeBreakDetectorConfig config)
           = (case opt_minRelativeDrop config of None \<Rightarrow> 0.15 | Some v \<Rightarrow> v)"
    "minZScore (mergeBreakDetectorConfig config)
           = (case opt_minZScore config of None \<Rightarrow> 1.5 | Some v \<Rightarrow> v)"
    by (simp_all add: mergeBreakDetectorConfig_def DEFAULT_BREAK_DETECTOR_CONFIG_def
        split: option.splits)
  ultimately show ?thesis using r by blast
qed

theorem emitted_breaks_meet_thresholds_witness:
  "detectBreaks utcPlatform exRates exConfig = Inr [exBreak ''2025-01-02'' (1/2) (1/10)]
   \<and> relativeDrop (exBreak ''2025-01-02'' (1/2) (1/10)) \<ge> minRelativeDrop (mergeBreakDetectorConfig exConfig)
   \<and> \<bar>zScore (exBreak ''2025-01-02'' (1/2) (1/10))\<bar> \<ge> minZScore (mergeBreakDetectorConfig exConfig)"
  using emitted_breaks_meet_thresholds[of utcPlatform exRates exConfig] by (simp add: ex_detect)

subsection \<open>C2: severity of a flagged break\<close>

text \<open>
  C2. Every raw flag, and so every break that \<open>detectBreaks\<close> returns, carries the severity
  CRITICAL if its relative drop is above 0.40 or its z-score is above 3.0 in absolute value,
  otherwise SIGNIFICANT if the relative drop is above 0.20 or the absolute z-score above 2.0,
  otherwise WARNING; the comparisons are strict, so a relative drop of exactly 0.40 with an
  absolute z-score of at most 3.0 is SIGNIFICANT.
\<close>

theorem severity_classification:
  "(\<exists>breaks. detectBreaks pf conversionRates config = Inr breaks
      \<and> (\<forall>b\<in>set breaks.
            severity b =
              (if 0.40 < relativeDrop b \<or> 3.0 < \<bar>zScore b\<bar> then CRITICAL
               else if 0.20 < relativeDrop b \<or> 2.0 < \<bar>zScore b\<bar> then SIGNIFICANT
               else WARNING)))
   \<and> (\<exists>raw. allBreaks pf conversionRates (mergeBreakDetectorConfig config) = Inr raw
        \<and> (\<forall>b\<in>set raw.
              severity b =
                (if 0.40 < relativeDrop b \<or> 3.0 < \<bar>zScore b\<bar> then CRITICAL
                 else if 0.20 < relativeDrop b \<or> 2.0 < \<bar>zScore b\<bar> then SIGNIFICANT
                 else WARNING)))
   \<and> (\<bar>z\<bar> \<le> 3.0 \<longrightarrow> classifySeverity 0.40 z = SIGNIFICANT)"
proof -
  let ?cfg = "mergeBreakDetectorConfig config"
  obtain raw breaks where a: "allBreaks pf conversionRates ?cfg = Inr raw"
    and r: "detectBreaks pf conversionRates config = Inr breaks"
    and s: "set breaks \<subseteq> set raw"
    using detectBreaks_result by blast
  have raw: "severity b = classifySeverity (relativeDrop b) (zScore b)" if "b \<in> set raw" for b
  proof -
    from a that obtain fid fr t d stats where "flagBreak ?cfg fid fr t d stats = Inr (Some b)"
      by (rule allBreaks_origin)
    then show ?thesis by (cases stats) (auto dest: flagBreak_fields(10))
  qed
  then have "severity b = classifySeverity (relativeDrop b) (zScore b)" if "b \<in> set breaks" for b
    using that s by blast
  with r a raw show ?thesis by (auto simp: classifySeverity_def)
qed

theorem severity_classification_witness:
  "detectBreaks utcPlatform exRates exConfig = Inr [exBreak ''2025-01-02'' (1 / 2) (1 / 10)]
   \<and> 0.40 < relativeDrop (exBreak ''2025-01-02'' (1 / 2) (1 / 10))
   \<and> severity (exBreak ''2025-01-02'' (1 / 2) (1 / 10)) = CRITICAL
   \<and> \<bar>3 :: real\<bar> \<le> 3.0 \<and> classifySeverity 0.40 3 = SIGNIFICANT"
  using severity_classification[of utcPlatform exRates exConfig 3]
  by (simp add: ex_detect) (simp add: exBreak_def)

subsection \<open>C3: deduplication by clusters\<close>



subsection \<open>C4: snapshots of a funnel whose identifier holds the separator\<close>

text \<open>
  C4 says that \<open>buildSnapshots\<close> returns exactly one snapshot per distinct (funnelId, date)
  pair of the events, with the summed counts. The code runs as follows on one event, and on
  two events of two days, of the funnel \<open>a|b\<close>: the snapshots carry the funnel \<open>a\<close> and the
  date \<open>b\<close>, and the two days give two snapshots of the same funnel and date, in every
  process environment. (On events without the separator the claim holds:
  \<open>buildSnapshots_without_separator\<close>, \<open>buildSnapshots_sorted\<close>.)
\<close>

theorem buildSnapshots_separator_in_funnelId:
  "map (\<lambda>s. (snap_funnelId s, snap_date s, stageCounts s IMPRESSION))
       (buildSnapshots pf [exEvent ''a|b'' ''2025-01-01'' IMPRESSION 5])
     = [(''a'', ''b'', 5)]
   \<and> map (\<lambda>s. (snap_funnelId s, snap_date s, stageCounts s IMPRESSION))
       (buildSnapshots utcPlatform
          [exEvent ''a|b'' ''2025-01-01'' IMPRESSION 5, exEvent ''a|b'' ''2025-01-02'' IMPRESSION 7])
     = [(''a'', ''b'', 5), (''a'', ''b'', 7)]
   \<and> map (\<lambda>s. (snap_funnelId s, snap_date s))
       (buildSnapshots pf
          [exEvent ''a|b'' ''2025-01-01'' IMPRESSION 5, exEvent ''a|b'' ''2025-01-02'' IMPRESSION 7])
     = [(''a'', ''b''), (''a'', ''b'')]"
  by (simp add: buildSnapshots_def grouped_def snapshotKey_def exEvent_def snapshotOf_def sortBy_def
      compareSnapshots_def utc_localeCompare codePointCompare_def)

subsection \<open>C5: a change dated after the break is scored when daylight saving starts\<close>

text \<open>
  What holds in every process environment: \<open>analyzeCauses\<close> returns one diagnosis per break,
  and every cause of the diagnosis of a break is the scored candidate of a change of the input
  whose funnel is the funnel of the break or the wildcard \<open>*\<close>, and for which \<open>daysDiff\<close>
  returns a number between 0 and \<open>maxTemporalDistanceDays\<close>.
\<close>

lemma causes_from_candidate_changes:
  "\<exists>ds. analyzeCauses pf toFixed clock breaks changes config = Inr ds \<and> length ds = length breaks
     \<and> (\<forall>i<length breaks. brk (ds ! i) = breaks ! i
          \<and> (\<forall>c\<in>set (causes (ds ! i)). \<exists>change\<in>set changes.
                 scoreCandidate pf change (breaks ! i) (mergeCauseAnalyzerConfig config) = Inr c
               \<and> changeDate c = ch_date change
               \<and> (ch_funnelId change = funnelId (breaks ! i) \<or> ch_funnelId change = ''*'')
               \<and> (\<exists>gap. daysDiff pf (ch_date change) (detectedDate (breaks ! i)) = Some gap
                      \<and> 0 \<le> gap
                      \<and> real_of_int gap \<le> maxTemporalDistanceDays (mergeCauseAnalyzerConfig config))))"
proof -
  let ?cfg = "mergeCauseAnalyzerConfig config"
  obtain ds where ds: "analyzeCauses pf toFixed clock breaks changes config = Inr ds"
    "length ds = length breaks"
    "\<forall>i<length breaks. brk (ds ! i) = breaks ! i
        \<and> rankCauses pf (breaks ! i) changes ?cfg = Inr (causes (ds ! i))"
    using analyzeCauses_diagnoses[of pf toFixed clock breaks changes config] by blast
  have "\<exists>change\<in>set changes.
                 scoreCandidate pf change (breaks ! i) ?cfg = Inr c
               \<and> changeDate c = ch_date change
               \<and> (ch_funnelId change = funnelId (breaks ! i) \<or> ch_funnelId change = ''*'')
               \<and> (\<exists>gap. daysDiff pf (ch_date change) (detectedDate (breaks ! i)) = Some gap
                      \<and> 0 \<le> gap \<and> real_of_int gap \<le> maxTemporalDistanceDays ?cfg)"
    if "i < length breaks" "c \<in> set (causes (ds ! i))" for i c
  proof -
    from that ds(3) have r: "rankCauses pf (breaks ! i) changes ?cfg = Inr (causes (ds ! i))"
      by simp
    from r that(2) obtain change where ch: "change \<in> set changes"
      "isCandidateChange pf (breaks ! i) ?cfg change"
      "scoreCandidate pf change (breaks ! i) ?cfg = Inr c"
      by (rule rankCauses_origin)
    from ch(3) have "changeDate c = ch_date change"
      by (rule scoreCandidate_Inr) simp
    with ch show ?thesis
      by (intro bexI[of _ change]) (simp_all add: isCandidateChange_iff)
  qed
  with ds show ?thesis by blast
qed

text \<open>
  In a process without daylight saving, where \<open>daysDiff\<close> is the difference of the day numbers,
  that is the claim: the date of the change is the detection date or one of the
  \<open>maxTemporalDistanceDays\<close> days before it.
\<close>

lemma causes_from_earlier_changes_without_daylight_saving:
  "\<exists>ds. analyzeCauses utcPlatform toFixed clock breaks changes config = Inr ds
     \<and> length ds = length breaks
     \<and> (\<forall>i<length breaks. \<forall>c\<in>set (causes (ds ! i)). \<exists>change\<in>set changes.
            changeDate c = ch_date change
          \<and> (ch_funnelId change = funnelId (breaks ! i) \<or> ch_funnelId change = ''*'')
          \<and> (\<exists>n k. isoDay (detectedDate (breaks ! i)) = Some n \<and> isoDay (ch_date change) = Some k
                 \<and> k \<le> n
                 \<and> real_of_int (n - k) \<le> maxTemporalDistanceDays (mergeCauseAnalyzerConfig config)))"
proof -
  have u: "daysDiff utcPlatform from to = Some gap \<Longrightarrow>
             \<exists>n k. isoDay to = Some n \<and> isoDay from = Some k \<and> gap = n - k" for "from" to gap
    by (auto simp: utc_daysDiff split: option.splits)
  obtain ds where ds: "analyzeCauses utcPlatform toFixed clock breaks changes config = Inr ds"
    "length ds = length breaks"
    "\<forall>i<length breaks. brk (ds ! i) = breaks ! i
          \<and> (\<forall>c\<in>set (causes (ds ! i)). \<exists>change\<in>set changes.
                 scoreCandidate utcPlatform change (breaks ! i) (mergeCauseAnalyzerConfig config) = Inr c
               \<and> changeDate c = ch_date change
               \<and> (ch_funnelId change = funnelId (breaks ! i) \<or> ch_funnelId change = ''*'')
               \<and> (\<exists>gap. daysDiff utcPlatform (ch_date change) (detectedDate (breaks ! i)) = Some gap
                      \<and> 0 \<le> gap
                      \<and> real_of_int gap \<le> maxTemporalDistanceDays (mergeCauseAnalyzerConfig config)))"
    using causes_from_candidate_changes[of utcPlatform toFixed clock breaks changes config] by blast
  have "\<exists>change\<in>set changes.
            changeDate c = ch_date change
          \<and> (ch_funnelId change = funnelId (breaks ! i) \<or> ch_funnelId change = ''*'')
          \<and> (\<exists>n k. isoDay (detectedDate (breaks ! i)) = Some n \<and> isoDay (ch_date change) = Some k
                 \<and> k \<le> n
                 \<and> real_of_int (n - k) \<le> maxTemporalDistanceDays (mergeCauseAnalyzerConfig config))"
    if "i < length breaks" "c \<in> set (causes (ds ! i))" for i c
  proof -
    from ds(3) that obtain change gap where ch: "change \<in> set changes"
      "changeDate c = ch_date change"
      "ch_funnelId change = funnelId (breaks ! i) \<or> ch_funnelId change = ''*''"
      "daysDiff utcPlatform (ch_date change) (detectedDate (breaks ! i)) = Some gap"
      "0 \<le> gap" "real_of_int gap \<le> maxTemporalDistanceDays (mergeCauseAnalyzerConfig config)"
      by blast
    from u[OF ch(4)] obtain n k where "isoDay (detectedDate (breaks ! i)) = Some n"
      "isoDay (ch_date change) = Some k" "gap = n - k" by blast
    with ch show ?thesis by (intro bexI[of _ change]) auto
  qed
  with ds(1,2) show ?thesis by blast
qed

text \<open>
  C5 says that a change dated after the detection date never appears among the causes. The
  code measures the distance with \<open>daysDiff\<close>, which truncates the elapsed time between the two
  local midnights. In a process with \<^verbatim>\<open>TZ=America/Santiago\<close> the day 2025-09-07, on which
  daylight saving starts, has 23 hours: for a break detected on 2025-09-07 and a change of the
  same funnel dated 2025-09-08, \<open>daysDiff\<close> returns 0, the change passes the test
  \<^verbatim>\<open>gap >= 0\<close>, and it is scored with the temporal score 1 and reported as the most likely
  cause. The same run in a process with \<^verbatim>\<open>TZ=UTC\<close> returns no cause.
\<close>

theorem change_after_break_is_scored:
  "detectedDate (exBreak ''2025-09-07'' (1 / 2) (1 / 10)) = ''2025-09-07''
   \<and> map ch_date dstChanges = [''2025-09-08'']
   \<and> daysDiff santiagoPlatform ''2025-09-08'' ''2025-09-07'' = Some 0
   \<and> analyzeCauses santiagoPlatform exToFixed (exClock ''2026-01-01T00:00:00.000Z'')
        [exBreak ''2025-09-07'' (1 / 2) (1 / 10)] dstChanges noOverrides
      = Inr [dstDiagnosis ''2026-01-01T00:00:00.000Z'']
   \<and> map changeDate (causes (dstDiagnosis ''2026-01-01T00:00:00.000Z'')) = [''2025-09-08'']
   \<and> map (\<lambda>c. temporalScore (scoreBreakdown c)) (causes (dstDiagnosis ''2026-01-01T00:00:00.000Z''))
      = [1]
   \<and> diagnosisStatus (dstDiagnosis ''2026-01-01T00:00:00.000Z'') = IDENTIFIED
   \<and> daysDiff utcPlatform ''2025-09-08'' ''2025-09-07'' = Some (- 1)
   \<and> analyzeCauses utcPlatform exToFixed (exClock ''2026-01-01T00:00:00.000Z'')
        [exBreak ''2025-09-07'' (1 / 2) (1 / 10)] dstChanges noOverrides
      = Inr [dstNoCause ''2026-01-01T00:00:00.000Z'']
   \<and> causes (dstNoCause ''2026-01-01T00:00:00.000Z'') = []"
  by (simp add: dst_analyze_santiago dst_analyze_utc santiago_gaps utc_gaps)
     (simp add: exBreak_def dstChanges_def exChange_def dstDiagnosis_def dstNoCause_def
        dstCandidate_def)

subsection \<open>C6: the confidence formula and the ranking\<close>



subsection \<open>C7: the status of a diagnosis\<close>

text \<open>
  C7. In every process environment, in every diagnosis that \<open>analyzeCauses\<close> returns the
  status is UNKNOWN exactly when the list of causes is empty, IDENTIFIED exactly when it is not
  empty and the confidence of its first cause is at least 0.6, UNCERTAIN exactly when it is not
  empty and that confidence is below 0.6; the first cause is one of greatest confidence.
\<close>

theorem diagnosis_status:
  "\<exists>ds. analyzeCauses pf toFixed clock breaks changes config = Inr ds
     \<and> (\<forall>d\<in>set ds.
           (diagnosisStatus d = UNKNOWN \<longleftrightarrow> causes d = [])
         \<and> (diagnosisStatus d = IDENTIFIED \<longleftrightarrow> causes d \<noteq> [] \<and> 0.6 \<le> confidence (hd (causes d)))
         \<and> (diagnosisStatus d = UNCERTAIN \<longleftrightarrow> causes d \<noteq> [] \<and> confidence (hd (causes d)) < 0.6)
         \<and> (\<forall>c\<in>set (causes d). confidence c \<le> confidence (hd (causes d))))"
proof -
  let ?cfg = "mergeCauseAnalyzerConfig config"
  obtain ds where ds: "analyzeCauses pf toFixed clock breaks changes config = Inr ds"
    "length ds = length breaks"
    "\<forall>i<length breaks. rankCauses pf (breaks ! i) changes ?cfg = Inr (causes (ds ! i))
        \<and> diagnosisStatus (ds ! i) = determineStatus (causes (ds ! i))"
    using analyzeCauses_diagnoses[of pf toFixed clock breaks changes config] by blast
  have "(diagnosisStatus d = UNKNOWN \<longleftrightarrow> causes d = [])
         \<and> (diagnosisStatus d = IDENTIFIED \<longleftrightarrow> causes d \<noteq> [] \<and> 0.6 \<le> confidence (hd (causes d)))
         \<and> (diagnosisStatus d = UNCERTAIN \<longleftrightarrow> causes d \<noteq> [] \<and> confidence (hd (causes d)) < 0.6)
         \<and> (\<forall>c\<in>set (causes d). confidence c \<le> confidence (hd (causes d)))"
    if "d \<in> set ds" for d
  proof -
    from that obtain i where i: "i < length ds" "d = ds ! i" by (auto simp: in_set_conv_nth)
    with ds(2,3) have c: "rankCauses pf (breaks ! i) changes ?cfg = Inr (causes d)"
      and s: "diagnosisStatus d = determineStatus (causes d)" by simp_all
    have "sorted (map (\<lambda>c. - confidence c) (causes d))"
      using c by (rule rankCauses_sorted)
    then have "\<forall>c\<in>set (causes d). confidence c \<le> confidence (hd (causes d))"
      using sorted_desc_hd by blast
    moreover have "(diagnosisStatus d = UNKNOWN \<longleftrightarrow> causes d = [])
         \<and> (diagnosisStatus d = IDENTIFIED \<longleftrightarrow> causes d \<noteq> [] \<and> 0.6 \<le> confidence (hd (causes d)))
         \<and> (diagnosisStatus d = UNCERTAIN \<longleftrightarrow> causes d \<noteq> [] \<and> confidence (hd (causes d)) < 0.6)"
      unfolding s by (cases "causes d") (auto simp: determineStatus_def)
    ultimately show ?thesis by blast
  qed
  with ds(1) show ?thesis by blast
qed

theorem diagnosis_status_witness:
  "analyzeCauses utcPlatform exToFixed (exClock ''2026-01-01T00:00:00.000Z'')
       [exBreak ''2025-01-02'' (1 / 2) (1 / 10)] exChanges noOverrides
     = Inr [exDiagnosis ''2026-01-01T00:00:00.000Z'']
   \<and> diagnosisStatus (exDiagnosis ''2026-01-01T00:00:00.000Z'') = IDENTIFIED
   \<and> causes (exDiagnosis ''2026-01-01T00:00:00.000Z'') \<noteq> []
   \<and> 0.6 \<le> confidence (hd (causes (exDiagnosis ''2026-01-01T00:00:00.000Z'')))
   \<and> analyzeCauses utcPlatform exToFixed (exClock ''2026-01-01T00:00:00.000Z'')
       [exBreak ''2025-01-02'' (1 / 2) (1 / 10)] [] noOverrides
     = Inr [\<lparr>generatedAt = ''2026-01-01T00:00:00.000Z'', brk = exBreak ''2025-01-02'' (1 / 2) (1 / 10),
             causes = [], diagnosisStatus = UNKNOWN,
             summary = ''[CRITICAL] 80.0% conversion drop detected in '' @ dquote @ ''f'' @ dquote
                @ '' at click -> landing on 2025-01-02. No candidate causes found within the analysis window.''\<rparr>]"
proof -
  let ?t = "''2026-01-01T00:00:00.000Z''"
  let ?b = "exBreak ''2025-01-02'' (1 / 2) (1 / 10)"
  have e: "analyzeCauses utcPlatform exToFixed (exClock ?t) [?b] [] noOverrides
     = Inr [\<lparr>generatedAt = ?t, brk = ?b, causes = [], diagnosisStatus = UNKNOWN,
             summary = ''[CRITICAL] 80.0% conversion drop detected in '' @ dquote @ ''f'' @ dquote
                @ '' at click -> landing on 2025-01-02. No candidate causes found within the analysis window.''\<rparr>]"
    by (rule ex_analyze_no_changes)
  from diagnosis_status[of utcPlatform exToFixed "exClock ?t" "[?b]" exChanges noOverrides]
  have "diagnosisStatus (exDiagnosis ?t) = IDENTIFIED \<longleftrightarrow>
          causes (exDiagnosis ?t) \<noteq> [] \<and> 0.6 \<le> confidence (hd (causes (exDiagnosis ?t)))"
    unfolding ex_analyze by simp
  moreover have "diagnosisStatus (exDiagnosis ?t) = IDENTIFIED" by (simp add: exDiagnosis_def)
  ultimately show ?thesis using e by (simp add: ex_analyze)
qed

subsection \<open>C8: no division by zero\<close>

text \<open>
  C8. The core never divides by zero. In the model every division of the code is checked, a
  zero divisor being an error that ends the run, and no run ends so:
  \<open>calculateConversionRates\<close> returns one series per snapshot, with an entry for every
  adjacent stage pair whose rate is toCount / fromCount when fromCount is positive and 0 when
  fromCount is 0; \<open>detectBreaks\<close> returns a list of breaks, from raw flags that were computed
  without error; the loop body of the detector returns at every detection date, it skips a
  date whose baseline mean is 0, and whenever it gets past its guards the baseline mean is not
  0 and the two divisions that compute the relative drop and the z-score succeed; and
  \<open>analyzeCauses\<close>, whose severity score divides by 4, returns a list of diagnoses.
\<close>

theorem core_never_divides_by_zero:
  "(\<exists>crs. calculateConversionRates snapshots = Inr crs
      \<and> map (\<lambda>cr. (cr_funnelId cr, cr_date cr)) crs
          = map (\<lambda>s. (snap_funnelId s, snap_date s)) snapshots
      \<and> (\<forall>cr\<in>set crs. \<forall>r\<in>set (rates cr).
            (0 < fromCount r \<longrightarrow> rate r = real_of_int (toCount r) / real_of_int (fromCount r))
          \<and> (fromCount r = 0 \<longrightarrow> rate r = 0))
      \<and> (\<forall>s\<in>set snapshots. \<forall>pair\<in>set stagePairs.
            \<exists>cr\<in>set crs. \<exists>r\<in>set (rates cr).
               rateEntryOf s pair = Inr r
             \<and> cr_date cr = snap_date s \<and> cr_funnelId cr = snap_funnelId s
             \<and> re_fromStage r = fst pair \<and> re_toStage r = snd pair
             \<and> fromCount r = stageCounts s (fst pair) \<and> toCount r = stageCounts s (snd pair)))
   \<and> (\<exists>raw breaks. allBreaks pf conversionRates (mergeBreakDetectorConfig config) = Inr raw
         \<and> detectBreaks pf conversionRates config = Inr breaks)
   \<and> (\<exists>pushed. detectAt pf cfg ts fid fr t d = Inr pushed)
   \<and> (mean (map dp_rate (baselinePoints pf cfg ts d)) = Inr 0 \<longrightarrow>
         detectAt pf cfg ts fid fr t d = Inr None)
   \<and> (\<forall>bm sd cm. windowStats pf cfg ts d = Inr (Some (bm, sd, cm)) \<longrightarrow>
         mean (map dp_rate (baselinePoints pf cfg ts d)) = Inr bm \<and> bm \<noteq> 0
       \<and> checkedDivide (bm - cm) bm = Inr ((bm - cm) / bm)
       \<and> checkedDivide (bm - cm) (max sd 0.01) = Inr ((bm - cm) / max sd 0.01)
       \<and> (\<exists>pushed. flagBreak cfg fid fr t d (bm, sd, cm) = Inr pushed))
   \<and> (\<exists>ds. analyzeCauses pf toFixed clock breaks changes analyzerConfig = Inr ds)"
proof (intro conjI)
  let ?entry = "\<lambda>s p. \<lparr>re_fromStage = fst p, re_toStage = snd p,
                              rate = (if 0 < stageCounts s (fst p)
                                      then real_of_int (stageCounts s (snd p))
                                           / real_of_int (stageCounts s (fst p)) else 0),
                              fromCount = stageCounts s (fst p),
                              toCount = stageCounts s (snd p)\<rparr>"
  let ?crs = "map (\<lambda>s. \<lparr>cr_date = snap_date s, cr_funnelId = snap_funnelId s,
                     rates = map (?entry s) stagePairs\<rparr>) snapshots"
  have v: "calculateConversionRates snapshots = Inr ?crs"
    by (rule calculateConversionRates_value)
  have e: "rateEntryOf s pair = Inr (?entry s pair)" for s pair
    by (cases pair) (simp add: rateEntryOf_value)
  have 1: "map (\<lambda>cr. (cr_funnelId cr, cr_date cr)) ?crs
          = map (\<lambda>s. (snap_funnelId s, snap_date s)) snapshots"
    by (simp add: comp_def)
  have 2: "\<forall>cr\<in>set ?crs. \<forall>r\<in>set (rates cr).
            (0 < fromCount r \<longrightarrow> rate r = real_of_int (toCount r) / real_of_int (fromCount r))
          \<and> (fromCount r = 0 \<longrightarrow> rate r = 0)"
    by auto
  have 3: "\<forall>s\<in>set snapshots. \<forall>pair\<in>set stagePairs.
            \<exists>cr\<in>set ?crs. \<exists>r\<in>set (rates cr).
               rateEntryOf s pair = Inr r
             \<and> cr_date cr = snap_date s \<and> cr_funnelId cr = snap_funnelId s
             \<and> re_fromStage r = fst pair \<and> re_toStage r = snd pair
             \<and> fromCount r = stageCounts s (fst pair) \<and> toCount r = stageCounts s (snd pair)"
  proof (intro ballI)
    fix s pair
    assume s: "s \<in> set snapshots" and p: "pair \<in> set stagePairs"
    let ?cr = "\<lparr>cr_date = snap_date s, cr_funnelId = snap_funnelId s,
                 rates = map (?entry s) stagePairs\<rparr>"
    have "?cr \<in> set ?crs" unfolding set_map using s by (rule rev_image_eqI) (rule refl)
    moreover have "?entry s pair \<in> set (rates ?cr)" using p by simp
    ultimately show "\<exists>cr\<in>set ?crs. \<exists>r\<in>set (rates cr).
               rateEntryOf s pair = Inr r
             \<and> cr_date cr = snap_date s \<and> cr_funnelId cr = snap_funnelId s
             \<and> re_fromStage r = fst pair \<and> re_toStage r = snd pair
             \<and> fromCount r = stageCounts s (fst pair) \<and> toCount r = stageCounts s (snd pair)"
      by (intro bexI[of _ ?cr] bexI[of _ "?entry s pair"]) (simp_all add: e)
  qed
  from v 1 2 3
  show "\<exists>crs. calculateConversionRates snapshots = Inr crs
      \<and> map (\<lambda>cr. (cr_funnelId cr, cr_date cr)) crs
          = map (\<lambda>s. (snap_funnelId s, snap_date s)) snapshots
      \<and> (\<forall>cr\<in>set crs. \<forall>r\<in>set (rates cr).
            (0 < fromCount r \<longrightarrow> rate r = real_of_int (toCount r) / real_of_int (fromCount r))
          \<and> (fromCount r = 0 \<longrightarrow> rate r = 0))
      \<and> (\<forall>s\<in>set snapshots. \<forall>pair\<in>set stagePairs.
            \<exists>cr\<in>set crs. \<exists>r\<in>set (rates cr).
               rateEntryOf s pair = Inr r
             \<and> cr_date cr = snap_date s \<and> cr_funnelId cr = snap_funnelId s
             \<and> re_fromStage r = fst pair \<and> re_toStage r = snd pair
             \<and> fromCount r = stageCounts s (fst pair) \<and> toCount r = stageCounts s (snd pair))"
    by (intro exI[of _ ?crs] conjI)
next
  show "\<exists>raw breaks. allBreaks pf conversionRates (mergeBreakDetectorConfig config) = Inr raw
         \<and> detectBreaks pf conversionRates config = Inr breaks"
    using detectBreaks_result[of pf conversionRates config] by blast
next
  show "\<exists>pushed. detectAt pf cfg ts fid fr t d = Inr pushed"
    by (rule detectAt_total)
next
  show "mean (map dp_rate (baselinePoints pf cfg ts d)) = Inr 0 \<longrightarrow>
         detectAt pf cfg ts fid fr t d = Inr None"
  proof
    assume m: "mean (map dp_rate (baselinePoints pf cfg ts d)) = Inr 0"
    obtain sd where sd: "stddev (map dp_rate (baselinePoints pf cfg ts d)) = Inr sd"
      using stddev_total by blast
    obtain cm where cm: "mean (map dp_rate (currentPoints pf cfg ts d)) = Inr cm"
      using mean_total by blast
    have "windowStats pf cfg ts d = Inr None"
      by (simp add: windowStats_def Let_def m sd cm)
    then show "detectAt pf cfg ts fid fr t d = Inr None" by (simp add: detectAt_def)
  qed
next
  show "\<forall>bm sd cm. windowStats pf cfg ts d = Inr (Some (bm, sd, cm)) \<longrightarrow>
         mean (map dp_rate (baselinePoints pf cfg ts d)) = Inr bm \<and> bm \<noteq> 0
       \<and> checkedDivide (bm - cm) bm = Inr ((bm - cm) / bm)
       \<and> checkedDivide (bm - cm) (max sd 0.01) = Inr ((bm - cm) / max sd 0.01)
       \<and> (\<exists>pushed. flagBreak cfg fid fr t d (bm, sd, cm) = Inr pushed)"
  proof (intro allI impI)
    fix bm sd cm
    assume w: "windowStats pf cfg ts d = Inr (Some (bm, sd, cm))"
    note s = windowStats_Some(1,2)[OF w]
    have p: "max sd (0.01::real) \<noteq> 0" by simp
    have "checkedDivide (bm - cm) bm = Inr ((bm - cm) / bm)"
      using s(2) by (simp add: checkedDivide_def)
    moreover have "checkedDivide (bm - cm) (max sd 0.01) = Inr ((bm - cm) / max sd 0.01)"
      using p by (simp only: checkedDivide_def if_False)
    ultimately
    show "mean (map dp_rate (baselinePoints pf cfg ts d)) = Inr bm \<and> bm \<noteq> 0
       \<and> checkedDivide (bm - cm) bm = Inr ((bm - cm) / bm)
       \<and> checkedDivide (bm - cm) (max sd 0.01) = Inr ((bm - cm) / max sd 0.01)
       \<and> (\<exists>pushed. flagBreak cfg fid fr t d (bm, sd, cm) = Inr pushed)"
      using s flagBreak_total[OF s(2)] by blast
  qed
next
  show "\<exists>ds. analyzeCauses pf toFixed clock breaks changes analyzerConfig = Inr ds"
    using analyzeCauses_diagnoses[of pf toFixed clock breaks changes analyzerConfig] by blast
qed

theorem core_never_divides_by_zero_witness:
  "map (\<lambda>cr. map (\<lambda>r. (fromCount r, toCount r, rate r)) (rates cr))
       (projr (calculateConversionRates [exSnapshot]))
     = [[(0, 100, 0), (100, 50, 1 / 2), (50, 0, 0), (0, 0, 0)]]
   \<and> rateEntryOf exSnapshot (IMPRESSION, CLICK)
     = Inr \<lparr>re_fromStage = IMPRESSION, re_toStage = CLICK, rate = 0, fromCount = 0, toCount = 100\<rparr>
   \<and> mean (map dp_rate (baselinePoints utcPlatform exCfg exSeries ''2025-01-01'')) = Inr 0
   \<and> detectAt utcPlatform exCfg exSeries ''f'' CLICK LANDING ''2025-01-01'' = Inr None
   \<and> windowStats utcPlatform exCfg exSeries ''2025-01-02'' = Inr (Some (1 / 2, 0, 1 / 10))
   \<and> checkedDivide (1 / 2 - 1 / 10) (max 0 0.01) = Inr 40
   \<and> flagBreak exCfg ''f'' CLICK LANDING ''2025-01-02'' (1 / 2, 0, 1 / 10)
     = Inr (Some (exBreak ''2025-01-02'' (1 / 2) (1 / 10)))
   \<and> detectBreaks utcPlatform exRates exConfig = Inr [exBreak ''2025-01-02'' (1 / 2) (1 / 10)]"
proof -
  note t1 = core_never_divides_by_zero[of "[exSnapshot]" utcPlatform exRates exConfig exCfg exSeries
      "''f''" CLICK LANDING "''2025-01-01''"]
  note t2 = core_never_divides_by_zero[of "[exSnapshot]" utcPlatform exRates exConfig exCfg exSeries
      "''f''" CLICK LANDING "''2025-01-02''"]
  have z: "mean (map dp_rate (baselinePoints utcPlatform exCfg exSeries ''2025-01-01'')) = Inr 0"
    by (simp add: ex_baseline1 mean_def)
  from t1 z have a: "detectAt utcPlatform exCfg exSeries ''f'' CLICK LANDING ''2025-01-01'' = Inr None"
    by blast
  from t2 ws2 have "checkedDivide (1 / 2 - 1 / 10) (max 0 0.01) = Inr ((1 / 2 - 1 / 10) / max 0 0.01)"
    by blast
  then have b: "checkedDivide (1 / 2 - 1 / 10) (max 0 0.01) = Inr 40" by simp
  have c: "map (\<lambda>cr. map (\<lambda>r. (fromCount r, toCount r, rate r)) (rates cr))
       (projr (calculateConversionRates [exSnapshot]))
     = [[(0, 100, 0), (100, 50, 1 / 2), (50, 0, 0), (0, 0, 0)]]"
    by (simp add: calculateConversionRates_value stagePairs_eq exSnapshot_def)
  have d: "rateEntryOf exSnapshot (IMPRESSION, CLICK)
     = Inr \<lparr>re_fromStage = IMPRESSION, re_toStage = CLICK, rate = 0, fromCount = 0, toCount = 100\<rparr>"
    by (simp add: rateEntryOf_value exSnapshot_def)
  from a b c d z show ?thesis by (simp add: ws2 fb2 ex_detect)
qed

subsection \<open>C9: runs agree up to the clock, in one process environment\<close>

text \<open>
  C9 as stated fails. Two runs of \<open>analyzeCauses\<close> on the same breaks, changes and
  configuration return different lists when the clock reads different instants, in the field
  \<open>generatedAt\<close>; and they return different causes, status and summary when the processes run
  in different time zones, because \<open>daysDiff\<close> measures the distance of two dates in local
  time: the change dated 2025-09-08 is the cause of the break of 2025-09-07 in Chile and is
  not a candidate in a zone without daylight saving. The deduplication of two flags differs in
  the same way, and \<open>buildSnapshots\<close> returns the snapshots of the funnels \<open>d\<close> and \<open>ch\<close> in one
  order in an English locale and in the other order in a Czech locale.
\<close>

theorem clock_and_time_zone_change_output:
  "analyzeCauses utcPlatform exToFixed (exClock ''2026-01-01T00:00:00.000Z'')
       [exBreak ''2025-01-02'' (1 / 2) (1 / 10)] exChanges noOverrides
   \<noteq> analyzeCauses utcPlatform exToFixed (exClock ''2026-01-01T00:00:01.000Z'')
       [exBreak ''2025-01-02'' (1 / 2) (1 / 10)] exChanges noOverrides
   \<and> map (map causes)
       [projr (analyzeCauses utcPlatform exToFixed (exClock ''2026-01-01T00:00:00.000Z'')
                [exBreak ''2025-09-07'' (1 / 2) (1 / 10)] dstChanges noOverrides),
        projr (analyzeCauses santiagoPlatform exToFixed (exClock ''2026-01-01T00:00:00.000Z'')
                [exBreak ''2025-09-07'' (1 / 2) (1 / 10)] dstChanges noOverrides)]
     = [[[]], [[dstCandidate]]]
   \<and> map (map diagnosisStatus)
       [projr (analyzeCauses utcPlatform exToFixed (exClock ''2026-01-01T00:00:00.000Z'')
                [exBreak ''2025-09-07'' (1 / 2) (1 / 10)] dstChanges noOverrides),
        projr (analyzeCauses santiagoPlatform exToFixed (exClock ''2026-01-01T00:00:00.000Z'')
                [exBreak ''2025-09-07'' (1 / 2) (1 / 10)] dstChanges noOverrides)]
     = [[UNKNOWN], [IDENTIFIED]]
   \<and> map (projr \<circ> (\<lambda>pf. deduplicateConsecutiveBreaks pf
                       [exBreak ''2025-09-07'' (1 / 2) (1 / 10), exBreak ''2025-09-09'' (1 / 2) (1 / 4)]))
       [utcPlatform, santiagoPlatform]
     = [[exBreak ''2025-09-07'' (1 / 2) (1 / 10), exBreak ''2025-09-09'' (1 / 2) (1 / 4)],
        [exBreak ''2025-09-07'' (1 / 2) (1 / 10)]]
   \<and> map (\<lambda>pf. map snap_funnelId
                 (buildSnapshots pf
                    [exEvent ''d'' ''2025-01-01'' CLICK 1, exEvent ''ch'' ''2025-01-01'' CLICK 1]))
       [utcPlatform, czechPlatform]
     = [[''ch'', ''d''], [''d'', ''ch'']]"
  by (simp add: ex_analyze dst_analyze_utc dst_analyze_santiago dst_dedup_utc dst_dedup_santiago
        locale_build)
     (simp add: exDiagnosis_def dstNoCause_def dstDiagnosis_def)

text \<open>
  C9, amended. The process environment (the time zone in which \<open>daysDiff\<close> measures days, the
  locale in which \<open>localeCompare\<close> orders strings) is an input of \<open>buildSnapshots\<close>,
  \<open>detectBreaks\<close> and \<open>analyzeCauses\<close>, and the wall clock is an input of \<open>analyzeCauses\<close>. With
  them, every core function is a total function of its arguments: \<open>buildSnapshots\<close> is one by
  its definition, \<open>calculateConversionRates\<close> always returns a list of series,
  \<open>detectBreaks\<close> always returns a list of breaks, and \<open>analyzeCauses\<close> always returns a list
  of diagnoses, one per break, which in one environment is the same for every clock in every
  field but \<open>generatedAt\<close>; \<open>generatedAt\<close> holds what the clock read when the diagnosis was
  built.
\<close>

theorem runs_agree_up_to_clock_in_one_environment:
  "(\<exists>crs. calculateConversionRates snapshots = Inr crs \<and> length crs = length snapshots)
   \<and> (\<exists>found. detectBreaks pf conversionRates detectorConfig = Inr found)
   \<and> (\<exists>ds. length ds = length breaks
         \<and> (\<forall>clock. analyzeCauses pf toFixed clock breaks changes config
                = Inr (map (\<lambda>(i, d). d\<lparr>generatedAt := clock i\<rparr>) (zip [0 ..< length ds] ds))))"
proof (intro conjI)
  show "\<exists>crs. calculateConversionRates snapshots = Inr crs \<and> length crs = length snapshots"
    by (simp add: calculateConversionRates_value)
next
  show "\<exists>found. detectBreaks pf conversionRates detectorConfig = Inr found"
    using detectBreaks_result[of pf conversionRates detectorConfig] by blast
next
  obtain ds where "length ds = length breaks"
    "\<And>clock k. diagnoseFrom pf toFixed clock k breaks changes (mergeCauseAnalyzerConfig config)
            = Inr (map (\<lambda>(i, d). d\<lparr>generatedAt := clock (k + i)\<rparr>) (zip [0 ..< length ds] ds))"
    using diagnoseFrom_result[of breaks pf changes "mergeCauseAnalyzerConfig config" toFixed] by blast
  then show "\<exists>ds. length ds = length breaks
         \<and> (\<forall>clock. analyzeCauses pf toFixed clock breaks changes config
                = Inr (map (\<lambda>(i, d). d\<lparr>generatedAt := clock i\<rparr>) (zip [0 ..< length ds] ds)))"
    by (intro exI[of _ ds]) (simp add: analyzeCauses_def)
qed

subsection \<open>C10: every break is a genuine drop, on non-negative rates\<close>

text \<open>
  C10 as stated, for every input, fails: on a series of negative rates the detector reports a
  rise as a break, with a negative baseline, a negative absolute drop and a negative z-score.
\<close>

theorem improvement_reported_counterexample:
  "0 < minRelativeDrop (mergeBreakDetectorConfig exConfig)
   \<and> detectBreaks utcPlatform negRates exConfig = Inr [exBreak ''2025-01-02'' (- (1 / 2)) (- (1 / 10))]
   \<and> baselineRate (exBreak ''2025-01-02'' (- (1 / 2)) (- (1 / 10))) < 0
   \<and> absoluteDrop (exBreak ''2025-01-02'' (- (1 / 2)) (- (1 / 10))) < 0
   \<and> zScore (exBreak ''2025-01-02'' (- (1 / 2)) (- (1 / 10))) < 0
   \<and> baselineRate (exBreak ''2025-01-02'' (- (1 / 2)) (- (1 / 10)))
       < currentRate (exBreak ''2025-01-02'' (- (1 / 2)) (- (1 / 10)))"
  by (simp add: neg_detect ex_cfg) (simp add: exCfg_def exBreak_def)

text \<open>
  C10, amended. For every input whose rates are all non-negative and every configuration with
  \<open>minRelativeDrop > 0\<close>, \<open>detectBreaks\<close> returns a list of breaks, and every break in it has a
  strictly positive baseline rate, a strictly positive absolute drop and z-score, and a current
  rate strictly below the baseline rate.
\<close>

theorem breaks_are_genuine_drops:
  assumes "\<forall>cr\<in>set conversionRates. \<forall>r\<in>set (rates cr). 0 \<le> rate r"
    and "0 < minRelativeDrop (mergeBreakDetectorConfig config)"
  shows "\<exists>breaks. detectBreaks pf conversionRates config = Inr breaks
     \<and> (\<forall>b\<in>set breaks. 0 < baselineRate b \<and> 0 < absoluteDrop b \<and> 0 < zScore b
            \<and> currentRate b < baselineRate b)"
proof -
  let ?cfg = "mergeBreakDetectorConfig config"
  obtain raw breaks where a: "allBreaks pf conversionRates ?cfg = Inr raw"
    and r: "detectBreaks pf conversionRates config = Inr breaks"
    and s: "set breaks \<subseteq> set raw"
    using detectBreaks_result by blast
  have "0 < baselineRate b \<and> 0 < absoluteDrop b \<and> 0 < zScore b \<and> currentRate b < baselineRate b"
    if "b \<in> set breaks" for b
  proof -
    from that s have "b \<in> set raw" by blast
    with a obtain fid fr t d stats where
      w: "windowStats pf ?cfg
            (extractTimeSeries pf
               (sortBy (\<lambda>a b. localeCompare pf (cr_date a) (cr_date b))
                  (filter (\<lambda>cr. cr_funnelId cr = fid) conversionRates)) fr t) d = Inr (Some stats)"
      and f: "flagBreak ?cfg fid fr t d stats = Inr (Some b)"
      by (rule allBreaks_origin)
    obtain bm sd cm where st: "stats = (bm, sd, cm)" by (cases stats)
    have "\<forall>cr\<in>set (sortBy (\<lambda>a b. localeCompare pf (cr_date a) (cr_date b))
                  (filter (\<lambda>cr. cr_funnelId cr = fid) conversionRates)). \<forall>r\<in>set (rates cr). 0 \<le> rate r"
      using assms(1) by (auto simp: set_sortBy)
    from extractTimeSeries_nonneg[OF this] w st have "0 < bm"
      using windowStats_baseline_pos by blast
    with f st assms(2) show ?thesis using flagBreak_genuine by blast
  qed
  with r show ?thesis by blast
qed

theorem breaks_are_genuine_drops_witness:
  "list_all (\<lambda>cr. list_all (\<lambda>r. 0 \<le> rate r) (rates cr)) exRates
   \<and> 0 < minRelativeDrop (mergeBreakDetectorConfig exConfig)
   \<and> detectBreaks utcPlatform exRates exConfig = Inr [exBreak ''2025-01-02'' (1 / 2) (1 / 10)]
   \<and> 0 < baselineRate (exBreak ''2025-01-02'' (1 / 2) (1 / 10))
   \<and> 0 < absoluteDrop (exBreak ''2025-01-02'' (1 / 2) (1 / 10))
   \<and> 0 < zScore (exBreak ''2025-01-02'' (1 / 2) (1 / 10))
   \<and> currentRate (exBreak ''2025-01-02'' (1 / 2) (1 / 10)) < baselineRate (exBreak ''2025-01-02'' (1 / 2) (1 / 10))"
proof -
  have h1: "\<forall>cr\<in>set exRates. \<forall>r\<in>set (rates cr). 0 \<le> rate r"
    by (simp add: exRates_def exDay_def)
  have h2: "0 < minRelativeDrop (mergeBreakDetectorConfig exConfig)"
    by (simp add: ex_cfg exCfg_def)
  have h3: "list_all (\<lambda>cr. list_all (\<lambda>r. 0 \<le> rate r) (rates cr)) exRates"
    using h1 by (simp add: list_all_iff)
  from breaks_are_genuine_drops[OF h1 h2, of utcPlatform] h2 h3 show ?thesis
    by (simp add: ex_detect)
qed

end
